theory Spec2Isabelle
  imports Main "HOL-Library.AList" "HOL-Library.Char_ord" "HOL-Library.List_Lexorder"
begin

section \<open>pycollocation.solvers: the base class \<open>Solver\<close>\<close>

text \<open>
  The embedding follows \<^verbatim>\<open>src/pycollocation/solvers.py\<close>. Names are the source's, without
  the leading underscore that Isabelle does not allow.

  \<^item> A Python \<^verbatim>\<open>dict\<close> is an association list in iteration order; storing under a key
    (\<^verbatim>\<open>d[k] = v\<close>) is \<open>AList.update\<close>, which overwrites in place and appends a new key
    at the end, as Python does. That the keys of a dict are distinct is a hypothesis where
    it matters.
  \<^item> A one-dimensional numpy array is a list; its element type \<open>'a\<close> is left open, since
    the code only moves elements around or subtracts them.
  \<^item> A sympy symbol is its name, a \<open>string\<close>; a sympy expression is a value of an open type
    \<open>'e\<close>, and \<^verbatim>\<open>sympy.lambdify\<close> is a parameter \<open>lambdify\<close> of every function that
    compiles.
  \<^item> An exception is a value of \<open>error\<close>; a function that can raise returns
    \<open>error + 'r\<close> with \<open>Inl\<close> the exception. \<open>AttributeError\<close> is the one the validators
    raise, with their message and the class of the offending value; \<open>MissingAttribute\<close> is
    the \<^verbatim>\<open>AttributeError\<close> of the interpreter for reading an attribute that was never set,
    with the class and the attribute. Assertions are enabled, as they are by default.
\<close>

subsection \<open>Exceptions and Python values\<close>

datatype pyclass =
  ClsDict | ClsNoneType | ClsInt | ClsFloat | ClsStr | ClsList | ClsTuple | ClsSymbolicModel

datatype error =
    AttributeError string pyclass
  | MissingAttribute string string
  | AssertionError string
  | KeyError string
  | ValueError string
  | TypeError string
  | NotImplementedError

type_synonym var = string

type_synonym ('k, 'v) dict = "('k \<times> 'v) list"

definition dict_get :: "(string, 'v) dict \<Rightarrow> string \<Rightarrow> error + 'v" where
  \<comment> \<open>\<^verbatim>\<open>d[k]\<close>: KeyError on a missing key.\<close>
  "dict_get d k = (case map_of d k of None \<Rightarrow> Inl (KeyError k) | Some v \<Rightarrow> Inr v)"

subsection \<open>Slicing and stacking of arrays\<close>

definition slice_index :: "int \<Rightarrow> nat \<Rightarrow> nat" where
  \<comment> \<open>The position a slice bound \<open>n\<close> denotes in a sequence of length \<open>len\<close>: a negative bound
      counts from the end, and both ends clamp.\<close>
  "slice_index n len = (if n < 0 then nat (int len + n) else min (nat n) len)"

definition slice_to :: "int \<Rightarrow> 'a list \<Rightarrow> 'a list" where
  \<comment> \<open>\<^verbatim>\<open>a[:n]\<close>\<close>
  "slice_to n a = take (slice_index n (length a)) a"

definition slice_from :: "int \<Rightarrow> 'a list \<Rightarrow> 'a list" where
  \<comment> \<open>\<^verbatim>\<open>a[n:]\<close>\<close>
  "slice_from n a = drop (slice_index n (length a)) a"

definition hstack :: "'a list list \<Rightarrow> error + 'a list" where
  \<comment> \<open>\<^verbatim>\<open>np.hstack\<close> of one-dimensional arrays; numpy refuses an empty sequence.\<close>
  "hstack arrays =
     (if arrays = [] then Inl (ValueError ''need at least one array to concatenate'')
      else Inr (concat arrays))"

subsection \<open>The model and the solver\<close>

text \<open>
  Modelled from the spec: the class \<^verbatim>\<open>models.SymbolicModel\<close> is imported by the source but its
  module is not part of it. The record has the four attributes the solver reads, with the
  shapes the spec's data model gives them: the independent variable, the ordered dependent
  variables, the mapping from variable to right-hand side, and one optional boundary
  condition per side.
\<close>

record 'e boundary_conditions =
  lower :: "'e option"
  upper :: "'e option"

record 'e SymbolicModel =
  independent_var :: var
  dependent_vars :: "var list"
  rhs :: "(var, 'e) dict"
  boundary_conditions :: "'e boundary_conditions"

text \<open>
  What can be assigned to an attribute: a dict, an instance of \<^verbatim>\<open>models.SymbolicModel\<close>, or
  a value of some other class. The values inside a dict are of an open type: no validator
  looks at them.
\<close>

datatype ('e, 'a) pyobj =
    PyDict "(string, 'a) dict"
  | PyModel "'e SymbolicModel"
  | PyNone
  | PyInt int
  | PyStr string
  | PyList "'a list"
  | PyTuple "'a list"

fun class_of :: "('e, 'a) pyobj \<Rightarrow> pyclass" where
  "class_of (PyDict _) = ClsDict"
| "class_of (PyModel _) = ClsSymbolicModel"
| "class_of PyNone = ClsNoneType"
| "class_of (PyInt _) = ClsInt"
| "class_of (PyStr _) = ClsStr"
| "class_of (PyList _) = ClsList"
| "class_of (PyTuple _) = ClsTuple"

type_synonym 'a callable = "'a list \<Rightarrow> 'a"

text \<open>
  The instance attributes of a \<open>Solver\<close>. \<open>lower_boundary_condition_cache\<close> and
  \<open>upper_boundary_condition_cache\<close> are the name-mangled \<^verbatim>\<open>__lower_boundary_condition\<close> and
  \<^verbatim>\<open>__upper_boundary_condition\<close>, whose class-level default is \<^verbatim>\<open>None\<close>. \<open>result_attr\<close> is
  \<^verbatim>\<open>_result\<close>: \<open>None\<close> stands for an attribute that was never set, which is not the Python
  value \<^verbatim>\<open>None\<close>. A result is what the external nonlinear solver returns: the solver reads
  its coefficient vector \<^verbatim>\<open>x\<close>, the tests its flag \<^verbatim>\<open>success\<close>.
\<close>

record 'a Result =
  result_x :: "'a list"
  success :: bool

record ('e, 'a) Solver =
  model_attr :: "'e SymbolicModel"
  params_attr :: "(string, 'a) dict"
  lower_boundary_condition_cache :: "'a callable option"
  upper_boundary_condition_cache :: "'a callable option"
  result_attr :: "'a Result option"

text \<open>
  The class attribute \<^verbatim>\<open>_cached_rhs_functions\<close> is one dict for the class, shared by all of
  its instances: it is not a field of \<open>Solver\<close> but a value of its own, which every function
  that reads or fills it takes and returns.
\<close>

type_synonym 'a rhs_cache = "(var, 'a callable) dict"

subsection \<open>The coefficient codec\<close>

fun coefs_array_to_dict_loop ::
  "(var, int) dict \<Rightarrow> (var, 'a list) dict \<Rightarrow> 'a list \<Rightarrow> (var, 'a list) dict" where
  "coefs_array_to_dict_loop [] coefs_dict coefs_array = coefs_dict"
| "coefs_array_to_dict_loop ((var, degree) # rest) coefs_dict coefs_array =
     coefs_array_to_dict_loop rest
       (AList.update var (slice_to (degree + 1) coefs_array) coefs_dict)
       (slice_from (degree + 1) coefs_array)"

definition coefs_array_to_dict :: "'a list \<Rightarrow> (var, int) dict \<Rightarrow> error + (var, 'a list) dict" where
  "coefs_array_to_dict coefs_array degrees =
     (if int (length coefs_array) \<noteq> sum_list (map snd degrees) + int (length degrees)
      then Inl (AssertionError ''The coefs array must conform with degree list!'')
      else
        let coefs_dict = coefs_array_to_dict_loop degrees [] coefs_array in
        if length coefs_dict \<noteq> length degrees
        then Inl (AssertionError ''Length of coefs and degree lists must be equal!'')
        else Inr coefs_dict)"

fun coefs_dict_to_array_loop :: "var list \<Rightarrow> (var, 'a list) dict \<Rightarrow> error + 'a list list" where
  "coefs_dict_to_array_loop [] coefs_dict = Inr []"
| "coefs_dict_to_array_loop (var # rest) coefs_dict =
     (case dict_get coefs_dict var of
        Inl e \<Rightarrow> Inl e
      | Inr coef_array \<Rightarrow>
          (case coefs_dict_to_array_loop rest coefs_dict of
             Inl e \<Rightarrow> Inl e
           | Inr coefs_list \<Rightarrow> Inr (coef_array # coefs_list)))"

definition coefs_dict_to_array ::
  "('e, 'a) Solver \<Rightarrow> (var, 'a list) dict \<Rightarrow> error + 'a list" where
  "coefs_dict_to_array self coefs_dict =
     (case coefs_dict_to_array_loop (dependent_vars (model_attr self)) coefs_dict of
        Inl e \<Rightarrow> Inl e
      | Inr coefs_list \<Rightarrow> hstack coefs_list)"


subsection \<open>Validation and the two setters\<close>

definition validate_model :: "('e, 'a) pyobj \<Rightarrow> error + 'e SymbolicModel" where
  \<comment> \<open>The \<^verbatim>\<open>isinstance\<close> test is the case distinction: only \<open>PyModel\<close> is an instance.\<close>
  "validate_model model =
     (case model of
        PyModel m \<Rightarrow> Inr m
      | _ \<Rightarrow> Inl (AttributeError
                 ''Attribute 'model' must have type models.SymbolicModel, not {}''
                 (class_of model)))"

definition validate_params :: "('e, 'a) pyobj \<Rightarrow> error + (string, 'a) dict" where
  "validate_params value =
     (case value of
        PyDict d \<Rightarrow> Inr d
      | _ \<Rightarrow> Inl (AttributeError
                 ''Attribute 'params' must have type dict, not {}''
                 (class_of value)))"

definition sorted_items :: "(string, 'a) dict \<Rightarrow> (string \<times> 'a) list" where
  \<comment> \<open>\<^verbatim>\<open>sorted(params.items())\<close>: a stable sort of the pairs. Python compares the pairs as
      tuples, so the key decides wherever two keys differ, which in a dict they always do.\<close>
  "sorted_items params = sort_key fst params"

definition OrderedDict :: "(string \<times> 'a) list \<Rightarrow> (string, 'a) dict" where
  \<comment> \<open>\<^verbatim>\<open>collections.OrderedDict(pairs)\<close>: the pairs stored one after the other.\<close>
  "OrderedDict pairs = fold (\<lambda>(k, v) d. AList.update k v d) pairs []"

definition order_params :: "(string, 'a) dict \<Rightarrow> (string, 'a) dict" where
  "order_params params = OrderedDict (sorted_items params)"

definition model_setter :: "('e, 'a) Solver \<Rightarrow> ('e, 'a) pyobj \<Rightarrow> error + ('e, 'a) Solver" where
  "model_setter self model =
     (case validate_model model of
        Inl e \<Rightarrow> Inl e
      | Inr m \<Rightarrow> Inr (self\<lparr>model_attr := m\<rparr>))"

definition params_setter :: "('e, 'a) Solver \<Rightarrow> ('e, 'a) pyobj \<Rightarrow> error + ('e, 'a) Solver" where
  "params_setter self value =
     (case validate_params value of
        Inl e \<Rightarrow> Inl e
      | Inr valid_params \<Rightarrow> Inr (self\<lparr>params_attr := order_params valid_params\<rparr>))"

definition Solver_init :: "('e, 'a) pyobj \<Rightarrow> ('e, 'a) pyobj \<Rightarrow> error + ('e, 'a) Solver" where
  \<comment> \<open>\<^verbatim>\<open>__init__\<close>: the two assignments, in the source's order, on an object that has no
      instance attribute yet. Nothing else is set.\<close>
  "Solver_init model params =
     (case validate_model model of
        Inl e \<Rightarrow> Inl e
      | Inr m \<Rightarrow>
          (case validate_params params of
             Inl e \<Rightarrow> Inl e
           | Inr valid_params \<Rightarrow>
               Inr \<lparr>model_attr = m, params_attr = order_params valid_params,
                    lower_boundary_condition_cache = None,
                    upper_boundary_condition_cache = None,
                    result_attr = None\<rparr>))"

subsection \<open>Compiling expressions\<close>

definition symbolic_vars :: "('e, 'a) Solver \<Rightarrow> var list" where
  "symbolic_vars self =
     [independent_var (model_attr self)] @ dependent_vars (model_attr self)"

definition symbolic_params :: "('e, 'a) Solver \<Rightarrow> var list" where
  "symbolic_params self = map fst (params_attr self)"

definition symbolic_args :: "('e, 'a) Solver \<Rightarrow> var list" where
  "symbolic_args self = symbolic_vars self @ symbolic_params self"

definition lambdify_factory ::
  "(var list \<Rightarrow> 'e \<Rightarrow> 'a callable) \<Rightarrow> ('e, 'a) Solver \<Rightarrow> 'e \<Rightarrow> 'a callable" where
  "lambdify_factory lambdify self expr = lambdify (symbolic_args self) expr"

definition lower_boundary_condition ::
  "(var list \<Rightarrow> 'e \<Rightarrow> 'a callable) \<Rightarrow> ('e, 'a) Solver \<Rightarrow> 'a callable option \<times> ('e, 'a) Solver" where
  "lower_boundary_condition lambdify self =
     (case lower (boundary_conditions (model_attr self)) of
        Some condition \<Rightarrow>
          let self' =
            (if lower_boundary_condition_cache self = None
             then self\<lparr>lower_boundary_condition_cache :=
                         Some (lambdify_factory lambdify self condition)\<rparr>
             else self)
          in (lower_boundary_condition_cache self', self')
      | None \<Rightarrow> (None, self))"

definition upper_boundary_condition ::
  "(var list \<Rightarrow> 'e \<Rightarrow> 'a callable) \<Rightarrow> ('e, 'a) Solver \<Rightarrow> 'a callable option \<times> ('e, 'a) Solver" where
  "upper_boundary_condition lambdify self =
     (case upper (boundary_conditions (model_attr self)) of
        Some condition \<Rightarrow>
          let self' =
            (if upper_boundary_condition_cache self = None
             then self\<lparr>upper_boundary_condition_cache :=
                         Some (lambdify_factory lambdify self condition)\<rparr>
             else self)
          in (upper_boundary_condition_cache self', self')
      | None \<Rightarrow> (None, self))"

definition rhs_functions ::
  "(var list \<Rightarrow> 'e \<Rightarrow> 'a callable) \<Rightarrow> 'a rhs_cache \<Rightarrow> ('e, 'a) Solver \<Rightarrow> var \<Rightarrow>
     error + ('a callable \<times> 'a rhs_cache)" where
  "rhs_functions lambdify cache self var =
     (case (if map_of cache var = None
            then (case dict_get (rhs (model_attr self)) var of
                    Inl e \<Rightarrow> Inl e
                  | Inr eqn \<Rightarrow> Inr (AList.update var (lambdify_factory lambdify self eqn) cache))
            else Inr cache) of
        Inl e \<Rightarrow> Inl e
      | Inr cache' \<Rightarrow>
          (case dict_get cache' var of
             Inl e \<Rightarrow> Inl e
           | Inr f \<Rightarrow> Inr (f, cache')))"

subsection \<open>Basis functions and residuals\<close>

text \<open>
  A basis function or derivative maps points to values. The two factories
  \<^verbatim>\<open>_basis_function_factory\<close> and \<^verbatim>\<open>_basis_derivative_factory\<close> are class methods that a
  subclass overrides; what the base class has is \<open>basis_factory_of_Solver\<close>. The functions
  that call a factory take it as the parameter \<open>factory\<close>. The attributes \<^verbatim>\<open>degrees\<close>,
  \<^verbatim>\<open>kind\<close> and \<^verbatim>\<open>domain\<close>, which the base class reads and never defines, are parameters
  too.
\<close>

type_synonym 'a basis_func = "'a \<Rightarrow> 'a"

type_synonym ('a, 'k, 'd) basis_factory = "'a list \<Rightarrow> 'k \<Rightarrow> 'd \<Rightarrow> error + 'a basis_func"

definition basis_factory_of_Solver :: "('a, 'k, 'd) basis_factory" where
  "basis_factory_of_Solver coef kind domain = Inl NotImplementedError"

fun construct_basis_loop ::
  "('a, 'k, 'd) basis_factory \<Rightarrow> (var, 'a list) dict \<Rightarrow> 'k \<Rightarrow> 'd \<Rightarrow>
     (var, 'a basis_func) dict \<Rightarrow> error + (var, 'a basis_func) dict" where
  "construct_basis_loop factory [] kind domain basis = Inr basis"
| "construct_basis_loop factory ((var, coef) # rest) kind domain basis =
     (case factory coef kind domain of
        Inl e \<Rightarrow> Inl e
      | Inr f \<Rightarrow> construct_basis_loop factory rest kind domain (AList.update var f basis))"

definition construct_basis_funcs ::
  "('a, 'k, 'd) basis_factory \<Rightarrow> (var, 'a list) dict \<Rightarrow> 'k \<Rightarrow> 'd \<Rightarrow>
     error + (var, 'a basis_func) dict" where
  "construct_basis_funcs basis_function_factory coefs kind domain =
     construct_basis_loop basis_function_factory coefs kind domain []"

definition construct_basis_derivs ::
  "('a, 'k, 'd) basis_factory \<Rightarrow> (var, 'a list) dict \<Rightarrow> 'k \<Rightarrow> 'd \<Rightarrow>
     error + (var, 'a basis_func) dict" where
  "construct_basis_derivs basis_derivative_factory coefs kind domain =
     construct_basis_loop basis_derivative_factory coefs kind domain []"

fun evaluate_basis_funcs_loop ::
  "var list \<Rightarrow> (var, 'a basis_func) dict \<Rightarrow> 'a \<Rightarrow> error + 'a list" where
  "evaluate_basis_funcs_loop [] basis_funcs points = Inr []"
| "evaluate_basis_funcs_loop (var # rest) basis_funcs points =
     (case dict_get basis_funcs var of
        Inl e \<Rightarrow> Inl e
      | Inr f \<Rightarrow>
          (case evaluate_basis_funcs_loop rest basis_funcs points of
             Inl e \<Rightarrow> Inl e
           | Inr values \<Rightarrow> Inr (f points # values)))"

definition evaluate_basis_funcs ::
  "('e, 'a) Solver \<Rightarrow> (var, 'a basis_func) dict \<Rightarrow> 'a \<Rightarrow> error + 'a list" where
  "evaluate_basis_funcs self basis_funcs points =
     evaluate_basis_funcs_loop (dependent_vars (model_attr self)) basis_funcs points"

text \<open>
  The two boundary residuals. The property \<^verbatim>\<open>_lower_boundary_condition\<close> is read twice, once
  in the test and once for the call, and the model reads it twice. Where the source falls off
  the end of the function, Python returns \<^verbatim>\<open>None\<close>: the \<open>None\<close> of the result. When a call
  raises, the attributes it had already set are not part of the result.
\<close>

definition evaluate_lower_boundary_residual ::
  "(var list \<Rightarrow> 'e \<Rightarrow> 'a callable) \<Rightarrow> ('e, 'a) Solver \<Rightarrow> (var, 'a basis_func) dict \<Rightarrow> 'a \<Rightarrow>
     error + ('a option \<times> ('e, 'a) Solver)" where
  "evaluate_lower_boundary_residual lambdify self basis_funcs lower_bound =
     (let (condition, self1) = lower_boundary_condition lambdify self in
      if condition \<noteq> None then
        (case evaluate_basis_funcs self1 basis_funcs lower_bound of
           Inl e \<Rightarrow> Inl e
         | Inr values \<Rightarrow>
             let args = values @ map snd (params_attr self1);
                 (condition', self2) = lower_boundary_condition lambdify self1
             in (case condition' of
                   None \<Rightarrow> Inl (TypeError ''NoneType object is not callable'')
                 | Some f \<Rightarrow> Inr (Some (f (lower_bound # args)), self2)))
      else Inr (None, self1))"

definition evaluate_upper_boundary_residual ::
  "(var list \<Rightarrow> 'e \<Rightarrow> 'a callable) \<Rightarrow> ('e, 'a) Solver \<Rightarrow> (var, 'a basis_func) dict \<Rightarrow> 'a \<Rightarrow>
     error + ('a option \<times> ('e, 'a) Solver)" where
  "evaluate_upper_boundary_residual lambdify self basis_funcs upper_bound =
     (let (condition, self1) = upper_boundary_condition lambdify self in
      if condition \<noteq> None then
        (case evaluate_basis_funcs self1 basis_funcs upper_bound of
           Inl e \<Rightarrow> Inl e
         | Inr values \<Rightarrow>
             let args = values @ map snd (params_attr self1);
                 (condition', self2) = upper_boundary_condition lambdify self1
             in (case condition' of
                   None \<Rightarrow> Inl (TypeError ''NoneType object is not callable'')
                 | Some f \<Rightarrow> Inr (Some (f (upper_bound # args)), self2)))
      else Inr (None, self1))"

definition evaluate_boundary_residuals ::
  "(var list \<Rightarrow> 'e \<Rightarrow> 'a callable) \<Rightarrow> ('e, 'a) Solver \<Rightarrow> (var, 'a basis_func) dict \<Rightarrow> 'a \<times> 'a \<Rightarrow>
     error + ('a list \<times> ('e, 'a) Solver)" where
  "evaluate_boundary_residuals lambdify self basis_funcs domain =
     (case evaluate_lower_boundary_residual lambdify self basis_funcs (fst domain) of
        Inl e \<Rightarrow> Inl e
      | Inr (lower_residual, self1) \<Rightarrow>
          (case evaluate_upper_boundary_residual lambdify self1 basis_funcs (snd domain) of
             Inl e \<Rightarrow> Inl e
           | Inr (upper_residual, self2) \<Rightarrow>
               let residuals = [];
                   residuals = (case lower_residual of
                                  Some r \<Rightarrow> residuals @ [r] | None \<Rightarrow> residuals);
                   residuals = (case upper_residual of
                                  Some r \<Rightarrow> residuals @ [r] | None \<Rightarrow> residuals)
               in Inr (residuals, self2)))"

text \<open>
  The residual function of a variable is a closure over \<^verbatim>\<open>self\<close>, \<^verbatim>\<open>var\<close> and the two dicts.
  It reads the solver's attributes and the class's cache when it is called, not when it is
  made, so the model gives it the cache and the solver of the moment of the call.
\<close>

type_synonym ('e, 'a) residual_function =
  "'a rhs_cache \<Rightarrow> ('e, 'a) Solver \<Rightarrow> 'a \<Rightarrow> error + ('a \<times> 'a rhs_cache)"

definition residual_function_factory ::
  "(var list \<Rightarrow> 'e \<Rightarrow> ('a::minus) callable) \<Rightarrow> var \<Rightarrow> (var, 'a basis_func) dict \<Rightarrow>
     (var, 'a basis_func) dict \<Rightarrow> ('e, 'a) residual_function" where
  "residual_function_factory lambdify var basis_derivs basis_funcs =
     (\<lambda>cache self t.
        case evaluate_basis_funcs self basis_funcs t of
          Inl e \<Rightarrow> Inl e
        | Inr values \<Rightarrow>
            let args = values @ map snd (params_attr self) in
            (case dict_get basis_derivs var of
               Inl e \<Rightarrow> Inl e
             | Inr basis_deriv \<Rightarrow>
                 let derivative = basis_deriv t in
                 (case rhs_functions lambdify cache self var of
                    Inl e \<Rightarrow> Inl e
                  | Inr (f, cache') \<Rightarrow> Inr (derivative - f (t # args), cache'))))"

definition construct_residual_funcs ::
  "(var list \<Rightarrow> 'e \<Rightarrow> ('a::minus) callable) \<Rightarrow> (var, 'a basis_func) dict \<Rightarrow>
     (var, 'a basis_func) dict \<Rightarrow> (var, ('e, 'a) residual_function) dict" where
  "construct_residual_funcs lambdify basis_derivs basis_funcs =
     fold (\<lambda>(var, basis_deriv) residual_funcs.
             AList.update var (residual_function_factory lambdify var basis_derivs basis_funcs)
               residual_funcs)
       basis_derivs []"

fun evaluate_residual_funcs_loop ::
  "var list \<Rightarrow> (var, ('e, 'a) residual_function) dict \<Rightarrow> (var, 'a) dict \<Rightarrow>
     'a rhs_cache \<Rightarrow> ('e, 'a) Solver \<Rightarrow> error + ('a list \<times> 'a rhs_cache)" where
  "evaluate_residual_funcs_loop [] residual_funcs nodes cache self = Inr ([], cache)"
| "evaluate_residual_funcs_loop (var # rest) residual_funcs nodes cache self =
     (case dict_get residual_funcs var of
        Inl e \<Rightarrow> Inl e
      | Inr residual_function \<Rightarrow>
          (case dict_get nodes var of
             Inl e \<Rightarrow> Inl e
           | Inr points \<Rightarrow>
               (case residual_function cache self points of
                  Inl e \<Rightarrow> Inl e
                | Inr (r, cache1) \<Rightarrow>
                    (case evaluate_residual_funcs_loop rest residual_funcs nodes cache1 self of
                       Inl e \<Rightarrow> Inl e
                     | Inr (rs, cache2) \<Rightarrow> Inr (r # rs, cache2)))))"

definition evaluate_residual_funcs ::
  "('e, 'a) Solver \<Rightarrow> (var, ('e, 'a) residual_function) dict \<Rightarrow> (var, 'a) dict \<Rightarrow>
     'a rhs_cache \<Rightarrow> error + ('a list \<times> 'a rhs_cache)" where
  "evaluate_residual_funcs self residual_funcs nodes cache =
     evaluate_residual_funcs_loop (dependent_vars (model_attr self)) residual_funcs nodes
       cache self"

subsection \<open>The public properties\<close>

text \<open>
  The property \<^verbatim>\<open>functions\<close> is \<open>basis_functions\<close> here, since \<open>functions\<close> is a word of
  Isabelle's own.
\<close>

definition result :: "('e, 'a) Solver \<Rightarrow> error + 'a Result" where
  \<comment> \<open>\<^verbatim>\<open>return self._result\<close>; reading an attribute that was never set raises.\<close>
  "result self =
     (case result_attr self of
        None \<Rightarrow> Inl (MissingAttribute ''Solver'' ''_result'')
      | Some r \<Rightarrow> Inr r)"

definition coefficients :: "('e, 'a) Solver \<Rightarrow> (var, int) dict \<Rightarrow> error + (var, 'a list) dict" where
  "coefficients self degrees =
     (case result self of
        Inl e \<Rightarrow> Inl e
      | Inr r \<Rightarrow> coefs_array_to_dict (result_x r) degrees)"

definition derivatives ::
  "('a, 'k, 'd) basis_factory \<Rightarrow> ('e, 'a) Solver \<Rightarrow> (var, int) dict \<Rightarrow> 'k \<Rightarrow> 'd \<Rightarrow>
     error + (var, 'a basis_func) dict" where
  "derivatives basis_derivative_factory self degrees kind domain =
     (case coefficients self degrees of
        Inl e \<Rightarrow> Inl e
      | Inr coefs \<Rightarrow> construct_basis_derivs basis_derivative_factory coefs kind domain)"

definition basis_functions ::
  "('a, 'k, 'd) basis_factory \<Rightarrow> ('e, 'a) Solver \<Rightarrow> (var, int) dict \<Rightarrow> 'k \<Rightarrow> 'd \<Rightarrow>
     error + (var, 'a basis_func) dict" where
  "basis_functions basis_function_factory self degrees kind domain =
     (case coefficients self degrees of
        Inl e \<Rightarrow> Inl e
      | Inr coefs \<Rightarrow> construct_basis_funcs basis_function_factory coefs kind domain)"

definition residual_functions ::
  "(var list \<Rightarrow> 'e \<Rightarrow> ('a::minus) callable) \<Rightarrow> ('a, 'k, 'd) basis_factory \<Rightarrow>
     ('a, 'k, 'd) basis_factory \<Rightarrow> ('e, 'a) Solver \<Rightarrow> (var, int) dict \<Rightarrow> 'k \<Rightarrow> 'd \<Rightarrow>
     error + (var, ('e, 'a) residual_function) dict" where
  "residual_functions lambdify basis_derivative_factory basis_function_factory self degrees
       kind domain =
     (case derivatives basis_derivative_factory self degrees kind domain of
        Inl e \<Rightarrow> Inl e
      | Inr basis_derivs \<Rightarrow>
          (case basis_functions basis_function_factory self degrees kind domain of
             Inl e \<Rightarrow> Inl e
           | Inr basis_funcs \<Rightarrow>
               Inr (construct_residual_funcs lambdify basis_derivs basis_funcs)))"

subsection \<open>The solve step\<close>

text \<open>
  Modelled from the spec: the method \<^verbatim>\<open>solve\<close> and the function that assembles the full
  residual vector belong to the subclass \<^verbatim>\<open>PolynomialSolver\<close>, which the tests call and the
  source does not contain. The spec's section 4.5 gives both. The full residual vector is
  every variable's interior residual evaluated at the collocation nodes, followed by the
  boundary residuals; here it is the list of these blocks, built with the functions of the
  base class above. \<open>solve\<close> hands the residual vector, as a function of the coefficient
  array, and the initial coefficients to an external nonlinear solver, once, and stores
  what the solver returns as the result. The external solver is the parameter
  \<open>external_solver\<close>: a function, since it is deterministic. The residual vector it is given
  is evaluated in the state in which \<open>solve\<close> is called; the callables that an evaluation
  adds to the caches are the ones it used, so a later evaluation returns the same values
  (\<open>collocation_residuals_keeps_resolution\<close> and \<open>collocation_residuals_frame\<close> below).
\<close>

definition collocation_residuals ::
  "(var list \<Rightarrow> 'e \<Rightarrow> ('a::minus) callable) \<Rightarrow> ('a, 'k, 'a \<times> 'a) basis_factory \<Rightarrow>
     ('a, 'k, 'a \<times> 'a) basis_factory \<Rightarrow> 'a rhs_cache \<Rightarrow> ('e, 'a) Solver \<Rightarrow> (var, 'a) dict \<Rightarrow>
     'k \<Rightarrow> 'a \<times> 'a \<Rightarrow> (var, int) dict \<Rightarrow> 'a list \<Rightarrow>
     error + ('a list \<times> 'a rhs_cache \<times> ('e, 'a) Solver)" where
  "collocation_residuals lambdify basis_derivative_factory basis_function_factory cache self
       nodes kind domain degrees coefs_array =
     (case coefs_array_to_dict coefs_array degrees of
        Inl e \<Rightarrow> Inl e
      | Inr coefs \<Rightarrow>
     (case construct_basis_derivs basis_derivative_factory coefs kind domain of
        Inl e \<Rightarrow> Inl e
      | Inr derivs \<Rightarrow>
     (case construct_basis_funcs basis_function_factory coefs kind domain of
        Inl e \<Rightarrow> Inl e
      | Inr funcs \<Rightarrow>
     (case evaluate_residual_funcs self (construct_residual_funcs lambdify derivs funcs)
             nodes cache of
        Inl e \<Rightarrow> Inl e
      | Inr (interior, cache') \<Rightarrow>
     (case evaluate_boundary_residuals lambdify self funcs domain of
        Inl e \<Rightarrow> Inl e
      | Inr (boundary, self') \<Rightarrow> Inr (interior @ boundary, cache', self'))))))"

type_synonym 'a external_solver = "('a list \<Rightarrow> error + 'a list) \<Rightarrow> 'a list \<Rightarrow> 'a Result"

definition solve ::
  "'a external_solver \<Rightarrow> (var list \<Rightarrow> 'e \<Rightarrow> ('a::minus) callable) \<Rightarrow>
     ('a, 'k, 'a \<times> 'a) basis_factory \<Rightarrow> ('a, 'k, 'a \<times> 'a) basis_factory \<Rightarrow>
     'a rhs_cache \<Rightarrow> ('e, 'a) Solver \<Rightarrow> 'a list \<Rightarrow> (var, 'a) dict \<Rightarrow> 'k \<Rightarrow> 'a \<times> 'a \<Rightarrow>
     (var, int) dict \<Rightarrow> ('e, 'a) Solver" where
  "solve external_solver lambdify basis_derivative_factory basis_function_factory cache self
       initial_coefficients nodes kind domain degrees =
     (let residual_vector =
            (\<lambda>coefs_array.
               case collocation_residuals lambdify basis_derivative_factory
                      basis_function_factory cache self nodes kind domain degrees coefs_array of
                 Inl e \<Rightarrow> Inl e
               | Inr (residuals, cache', self') \<Rightarrow> Inr residuals);
          result = external_solver residual_vector initial_coefficients
      in self\<lparr>result_attr := Some result\<rparr>)"

subsection \<open>Auxiliary definitions and example data\<close>

text \<open>
  \<open>chunks\<close> is the list of the slices that the loop of \<open>coefs_array_to_dict\<close> cuts, in the
  order it cuts them. It is a device of the proofs: the loop is shown to store exactly these.
\<close>

fun chunks :: "(var, int) dict \<Rightarrow> 'a list \<Rightarrow> 'a list list" where
  "chunks [] a = []"
| "chunks ((v, degree) # rest) a =
     slice_to (degree + 1) a # chunks rest (slice_from (degree + 1) a)"

text \<open>
  The callable that a variable, or a side, resolves to in a given state: the cached one when
  there is one, and otherwise the one that would be compiled now from the model. This is
  what \<open>rhs_functions\<close> and the two boundary properties return, as
  \<open>rhs_functions_resolved\<close> and the two lemmas on the boundary residuals show. Two caches
  resolve alike on a set of variables when each of these resolves to the same callable.
\<close>

definition resolved_rhs ::
  "(var list \<Rightarrow> 'e \<Rightarrow> 'a callable) \<Rightarrow> 'a rhs_cache \<Rightarrow> ('e, 'a) Solver \<Rightarrow> var \<Rightarrow>
     'a callable option" where
  "resolved_rhs lambdify cache self var =
     (case map_of cache var of
        Some f \<Rightarrow> Some f
      | None \<Rightarrow> map_option (lambdify (symbolic_args self)) (map_of (rhs (model_attr self)) var))"

definition resolved_lower ::
  "(var list \<Rightarrow> 'e \<Rightarrow> 'a callable) \<Rightarrow> ('e, 'a) Solver \<Rightarrow> 'a callable option" where
  "resolved_lower lambdify self =
     (case lower (boundary_conditions (model_attr self)) of
        None \<Rightarrow> None
      | Some condition \<Rightarrow>
          (case lower_boundary_condition_cache self of
             Some g \<Rightarrow> Some g
           | None \<Rightarrow> Some (lambdify (symbolic_args self) condition)))"

definition resolved_upper ::
  "(var list \<Rightarrow> 'e \<Rightarrow> 'a callable) \<Rightarrow> ('e, 'a) Solver \<Rightarrow> 'a callable option" where
  "resolved_upper lambdify self =
     (case upper (boundary_conditions (model_attr self)) of
        None \<Rightarrow> None
      | Some condition \<Rightarrow>
          (case upper_boundary_condition_cache self of
             Some g \<Rightarrow> Some g
           | None \<Rightarrow> Some (lambdify (symbolic_args self) condition)))"

definition resolve_alike ::
  "(var list \<Rightarrow> 'e \<Rightarrow> 'a callable) \<Rightarrow> var set \<Rightarrow> ('e, 'a) Solver \<Rightarrow> 'a rhs_cache \<Rightarrow>
     'a rhs_cache \<Rightarrow> bool" where
  "resolve_alike lambdify S self c1 c2 =
     (\<forall>v \<in> S. resolved_rhs lambdify c1 self v = resolved_rhs lambdify c2 self v)"

text \<open>
  The data of the examples. Values that a parameter dict can hold: numbers, and text as a
  value that is not numeric.
\<close>

datatype pyvalue = Number int | Text string

fun is_numeric :: "pyvalue \<Rightarrow> bool" where
  "is_numeric (Number _) = True"
| "is_numeric (Text _) = False"

text \<open>
  A small language of expressions over the integers and its evaluator stand for sympy in the
  examples: \<open>lambdify_expr args e\<close> binds the positional arguments to the symbols \<open>args\<close> and
  evaluates \<open>e\<close>. A symbol that is not bound evaluates to 0.
\<close>

datatype expr = Sym var | Num int | Plus expr expr | Minus expr expr | Times expr expr

fun eval_expr :: "(var \<rightharpoonup> int) \<Rightarrow> expr \<Rightarrow> int" where
  "eval_expr env (Sym s) = (case env s of Some v \<Rightarrow> v | None \<Rightarrow> 0)"
| "eval_expr env (Num n) = n"
| "eval_expr env (Plus a b) = eval_expr env a + eval_expr env b"
| "eval_expr env (Minus a b) = eval_expr env a - eval_expr env b"
| "eval_expr env (Times a b) = eval_expr env a * eval_expr env b"

definition lambdify_expr :: "var list \<Rightarrow> expr \<Rightarrow> int callable" where
  "lambdify_expr args e = (\<lambda>values. eval_expr (map_of (zip args values)) e)"

text \<open>
  Two models of one variable \<open>x\<close> with different right-hand sides, \<open>a * x\<close> and \<open>0 - x\<close>,
  and the solvers that \<open>Solver_init\<close> makes of them with the parameter \<open>a = 2\<close>.
\<close>

definition model_growth :: "expr SymbolicModel" where
  "model_growth =
     \<lparr>independent_var = ''t'', dependent_vars = [''x''],
      rhs = [(''x'', Times (Sym ''a'') (Sym ''x''))],
      boundary_conditions =
        \<lparr>lower = Some (Minus (Sym ''x'') (Num 1)), upper = Some (Minus (Sym ''x'') (Sym ''a''))\<rparr>\<rparr>"

definition model_decay :: "expr SymbolicModel" where
  "model_decay =
     \<lparr>independent_var = ''t'', dependent_vars = [''x''],
      rhs = [(''x'', Minus (Num 0) (Sym ''x''))],
      boundary_conditions = \<lparr>lower = None, upper = Some (Sym ''x'')\<rparr>\<rparr>"

definition solver_of :: "'e SymbolicModel \<Rightarrow> (string, 'a) dict \<Rightarrow> ('e, 'a) Solver" where
  "solver_of m p =
     \<lparr>model_attr = m, params_attr = p,
      lower_boundary_condition_cache = None, upper_boundary_condition_cache = None,
      result_attr = None\<rparr>"

definition solver_growth :: "(expr, int) Solver" where
  "solver_growth = solver_of model_growth [(''a'', 2)]"

definition solver_decay :: "(expr, int) Solver" where
  "solver_decay = solver_of model_decay [(''a'', 2)]"

definition bare_solver :: "var list \<Rightarrow> (unit, int) Solver" where
  \<comment> \<open>A solver over the dependent variables \<open>vars\<close>, with nothing else in it.\<close>
  "bare_solver vars =
     solver_of \<lparr>independent_var = ''t'', dependent_vars = vars, rhs = [],
                 boundary_conditions = \<lparr>lower = None, upper = None\<rparr>\<rparr> []"

text \<open>
  Two caches for the variable \<open>x\<close>: \<open>stale_cache\<close> is what the class's cache holds after a
  solver of \<open>model_growth\<close> has evaluated its residual, \<open>filled_cache\<close> what it holds after
  a solver of \<open>model_decay\<close> has. \<open>solver_decay_again\<close> is \<open>solver_decay\<close> after a solve:
  its upper boundary condition is compiled and a result is stored.
\<close>

definition stale_cache :: "int rhs_cache" where
  "stale_cache = [(''x'', lambdify_expr [''t'', ''x'', ''a''] (Times (Sym ''a'') (Sym ''x'')))]"

definition filled_cache :: "int rhs_cache" where
  "filled_cache = [(''x'', lambdify_expr [''t'', ''x'', ''a''] (Minus (Num 0) (Sym ''x'')))]"

definition solver_decay_again :: "(expr, int) Solver" where
  "solver_decay_again =
     solver_decay\<lparr>upper_boundary_condition_cache :=
                     Some (lambdify_expr [''t'', ''x'', ''a''] (Sym ''x'')),
                  result_attr := Some \<lparr>result_x = [0], success = False\<rparr>\<rparr>"

text \<open>
  The monomial basis over the integers: the function of the coefficients \<open>c\<close> is the
  polynomial with these coefficients, lowest degree first, and its derivative.
\<close>

fun poly_eval :: "int list \<Rightarrow> int \<Rightarrow> int" where
  "poly_eval [] t = 0"
| "poly_eval (c # cs) t = c + t * poly_eval cs t"

fun poly_deriv :: "int list \<Rightarrow> int \<Rightarrow> int" where
  "poly_deriv [] t = 0"
| "poly_deriv (c # cs) t = poly_eval cs t + t * poly_deriv cs t"

definition monomial_function_factory :: "(int, unit, int \<times> int) basis_factory" where
  "monomial_function_factory coef kind domain = Inr (poly_eval coef)"

definition monomial_derivative_factory :: "(int, unit, int \<times> int) basis_factory" where
  "monomial_derivative_factory coef kind domain = Inr (poly_deriv coef)"

text \<open>
  A deterministic external solver that takes one step: it moves each coefficient by the
  residual at its position, and reports success when all residuals are zero.
\<close>

definition one_step_solver :: "int external_solver" where
  "one_step_solver residual_vector x0 =
     (case residual_vector x0 of
        Inl e \<Rightarrow> \<lparr>result_x = x0, success = False\<rparr>
      | Inr residuals \<Rightarrow>
          \<lparr>result_x = map2 (\<lambda>c r. c - r) x0 residuals,
            success = list_all (\<lambda>r. r = 0) residuals\<rparr>)"

section \<open>Properties\<close>

subsection \<open>Dicts and slices\<close>

lemma update_fresh: "k \<notin> fst ` set d \<Longrightarrow> AList.update k v d = d @ [(k, v)]"
  by (induction d) auto

lemma map_of_zip_map:
  "map_of (zip xs (map f xs)) = (\<lambda>x. if x \<in> set xs then Some (f x) else None)"
  by (induction xs) auto

lemma slice_lengths:
  "0 \<le> n \<Longrightarrow> n \<le> int (length a) \<Longrightarrow>
   int (length (slice_to n a)) = n \<and> int (length (slice_from n a)) = int (length a) - n"
  by (auto simp: slice_to_def slice_from_def slice_index_def)

lemma slice_to_append:
  "0 \<le> n \<Longrightarrow> int (length c) = n \<Longrightarrow> slice_to n (c @ r) = c"
  by (simp add: slice_to_def slice_index_def)

lemma slice_from_append:
  "0 \<le> n \<Longrightarrow> int (length c) = n \<Longrightarrow> slice_from n (c @ r) = r"
  by (simp add: slice_from_def slice_index_def)

subsection \<open>The coefficient codec\<close>

lemma length_chunks: "length (chunks degs a) = length degs"
  by (induction degs a rule: chunks.induct) simp_all

text \<open>
  On a dict whose keys are new, the loop appends one entry per variable: the variable and
  its slice.
\<close>

lemma loop_fresh:
  "distinct (map fst degs) \<Longrightarrow> fst ` set degs \<inter> fst ` set d = {} \<Longrightarrow>
   coefs_array_to_dict_loop degs d a = d @ zip (map fst degs) (chunks degs a)"
proof (induction degs d a rule: coefs_array_to_dict_loop.induct)
  case (1 d a)
  then show ?case by simp
next
  case (2 var degree rest d a)
  have fresh: "var \<notin> fst ` set d" using "2.prems"(2) by auto
  have upd: "AList.update var (slice_to (degree + 1) a) d = d @ [(var, slice_to (degree + 1) a)]"
    by (rule update_fresh [OF fresh])
  have d1: "distinct (map fst rest)" using "2.prems"(1) by simp
  have d2: "fst ` set rest \<inter> fst ` set (d @ [(var, slice_to (degree + 1) a)]) = {}"
    using "2.prems" by auto
  show ?case
    using "2.IH" [unfolded upd, OF d1 d2] by (simp add: upd)
qed

lemma sum_degrees: "sum_list (map snd degs) + int (length degs) = (\<Sum>(v, d)\<leftarrow>degs. d + 1)"
  by (induction degs) auto

lemma chunks_sizes:
  "\<forall>(v, d) \<in> set degs. 0 \<le> d \<Longrightarrow> (\<Sum>(v, d)\<leftarrow>degs. d + 1) \<le> int (length a) \<Longrightarrow>
   list_all2 (\<lambda>(v, d) c. int (length c) = d + 1) degs (chunks degs a)"
proof (induction degs a rule: chunks.induct)
  case (1 a)
  then show ?case by simp
next
  case (2 v degree rest a)
  have nn: "0 \<le> degree + 1" using "2.prems"(1) by simp
  have rest_nn: "0 \<le> (\<Sum>(v, d)\<leftarrow>rest. d + 1)"
    using "2.prems"(1) by (intro sum_list_nonneg) auto
  have le: "degree + 1 \<le> int (length a)" using "2.prems"(2) rest_nn by simp
  note sl = slice_lengths [OF nn le]
  have "list_all2 (\<lambda>(v, d) c. int (length c) = d + 1) rest
          (chunks rest (slice_from (degree + 1) a))"
    using "2.prems" sl by (intro "2.IH") auto
  then show ?case using sl by simp
qed

lemma chunks_concat:
  "list_all2 (\<lambda>(v, d) c. int (length c) = d + 1) degs cs \<Longrightarrow> chunks degs (concat cs @ r) = cs"
proof (induction degs arbitrary: cs r)
  case Nil
  then show ?case by simp
next
  case (Cons p degs)
  obtain v d where p: "p = (v, d)" by (cases p)
  from Cons.prems obtain c cs' where cs: "cs = c # cs'" and len: "int (length c) = d + 1"
    and rest: "list_all2 (\<lambda>(v, d) c. int (length c) = d + 1) degs cs'"
    by (auto simp: p list_all2_Cons1)
  have nn: "0 \<le> d + 1" using len by linarith
  show ?case
    using Cons.IH[OF rest, of r] len nn
    by (simp add: p cs slice_to_append slice_from_append)
qed

lemma length_concat_chunks:
  "list_all2 (\<lambda>(v, d) c. int (length c) = d + 1) degs cs \<Longrightarrow>
   int (length (concat cs)) = (\<Sum>(v, d)\<leftarrow>degs. d + 1)"
  by (induction degs cs rule: list_all2_induct) auto

lemma coefs_array_to_dict_ok:
  assumes "distinct (map fst degrees)"
    and "int (length a) = (\<Sum>(v, d)\<leftarrow>degrees. d + 1)"
  shows "coefs_array_to_dict a degrees = Inr (zip (map fst degrees) (chunks degrees a))"
  using assms
  by (simp add: coefs_array_to_dict_def sum_degrees loop_fresh length_chunks Let_def)

lemma coefs_dict_to_array_loop_ok:
  "set vars \<subseteq> fst ` set coefs_dict \<Longrightarrow>
   coefs_dict_to_array_loop vars coefs_dict = Inr (map (\<lambda>v. the (map_of coefs_dict v)) vars)"
proof (induction vars)
  case Nil
  then show ?case by simp
next
  case (Cons v vars)
  then have "v \<in> fst ` set coefs_dict" by simp
  then obtain c where "map_of coefs_dict v = Some c"
    by (cases "map_of coefs_dict v") (auto simp: map_of_eq_None_iff)
  with Cons show ?case by (simp add: dict_get_def)
qed

text \<open>
  C4. \<open>coefs_array_to_dict\<close> (the spec's \<open>to_mapping\<close>) fails exactly when the size of the flat
  array differs from the sum over the variables of degree + 1, and it fails at the assertion
  of its precondition, which is the spec's ShapeMismatch. When the sizes agree it returns a
  dict with exactly one entry per variable of \<open>degrees\<close>, in the order of \<open>degrees\<close>, and
  each entry has size degree + 1. The degrees are the spec's: non-negative integers; that
  a dict has distinct keys is the hypothesis.
\<close>

theorem coefs_array_to_dict_shape:
  assumes "distinct (map fst degrees)"
  shows "(int (length coefs_array) \<noteq> (\<Sum>(v, d)\<leftarrow>degrees. d + 1) \<longrightarrow>
            coefs_array_to_dict coefs_array degrees =
              Inl (AssertionError ''The coefs array must conform with degree list!''))
       \<and> (int (length coefs_array) = (\<Sum>(v, d)\<leftarrow>degrees. d + 1) \<longrightarrow>
            (\<exists>coefs_dict. coefs_array_to_dict coefs_array degrees = Inr coefs_dict
               \<and> map fst coefs_dict = map fst degrees
               \<and> ((\<forall>(v, d) \<in> set degrees. 0 \<le> d) \<longrightarrow>
                    list_all2 (\<lambda>(v, d) (v', c). v' = v \<and> int (length c) = d + 1)
                      degrees coefs_dict)))"
proof (intro conjI impI)
  assume "int (length coefs_array) \<noteq> (\<Sum>(v, d)\<leftarrow>degrees. d + 1)"
  then show "coefs_array_to_dict coefs_array degrees =
      Inl (AssertionError ''The coefs array must conform with degree list!'')"
    by (simp add: coefs_array_to_dict_def sum_degrees)
next
  assume size: "int (length coefs_array) = (\<Sum>(v, d)\<leftarrow>degrees. d + 1)"
  let ?m = "zip (map fst degrees) (chunks degrees coefs_array)"
  have res: "coefs_array_to_dict coefs_array degrees = Inr ?m"
    by (rule coefs_array_to_dict_ok [OF assms size])
  have keys: "map fst ?m = map fst degrees"
    by (simp add: length_chunks)
  have sizes: "list_all2 (\<lambda>(v, d) (v', c). v' = v \<and> int (length c) = d + 1) degrees ?m"
    if nn: "\<forall>(v, d) \<in> set degrees. 0 \<le> d"
  proof -
    have "list_all2 (\<lambda>(v, d) c. int (length c) = d + 1) degrees (chunks degrees coefs_array)"
      by (rule chunks_sizes [OF nn]) (simp add: size)
    then show ?thesis
      by (auto simp: list_all2_conv_all_nth length_chunks split: prod.splits)
  qed
  show "\<exists>coefs_dict. coefs_array_to_dict coefs_array degrees = Inr coefs_dict
               \<and> map fst coefs_dict = map fst degrees
               \<and> ((\<forall>(v, d) \<in> set degrees. 0 \<le> d) \<longrightarrow>
                    list_all2 (\<lambda>(v, d) (v', c). v' = v \<and> int (length c) = d + 1)
                      degrees coefs_dict)"
    using res keys sizes by blast
qed

theorem coefs_array_to_dict_shape_witness:
  "distinct (map fst [(''x'', 0), (''y'', 1::int)])
   \<and> int (length [5, 6, 7::int]) = (\<Sum>(v, d)\<leftarrow>[(''x'', 0), (''y'', 1::int)]. d + 1)
   \<and> list_all (\<lambda>(v, d). 0 \<le> d) [(''x'', 0), (''y'', 1::int)]
   \<and> (\<exists>coefs_dict. coefs_array_to_dict [5, 6, 7::int] [(''x'', 0), (''y'', 1)] = Inr coefs_dict
         \<and> map fst coefs_dict = map fst [(''x'', 0), (''y'', 1::int)]
         \<and> list_all2 (\<lambda>(v, d) (v', c). v' = v \<and> int (length c) = d + 1)
              [(''x'', 0), (''y'', 1)] coefs_dict)
   \<and> int (length [5, 6::int]) \<noteq> (\<Sum>(v, d)\<leftarrow>[(''x'', 0), (''y'', 1::int)]. d + 1)
   \<and> coefs_array_to_dict [5, 6::int] [(''x'', 0), (''y'', 1)] =
         Inl (AssertionError ''The coefs array must conform with degree list!'')"
proof -
  let ?degrees = "[(''x'', 0), (''y'', 1::int)]"
  have dist: "distinct (map fst ?degrees)" by simp
  have size: "int (length [5, 6, 7::int]) = (\<Sum>(v, d)\<leftarrow>?degrees. d + 1)" by simp
  have nonneg: "\<forall>(v, d) \<in> set ?degrees. 0 \<le> d" by simp
  have differs: "int (length [5, 6::int]) \<noteq> (\<Sum>(v, d)\<leftarrow>?degrees. d + 1)" by simp
  note agree = coefs_array_to_dict_shape [OF dist, of "[5, 6, 7]", THEN conjunct2, rule_format, OF size]
  note fails = coefs_array_to_dict_shape [OF dist, of "[5, 6]", THEN conjunct1, rule_format, OF differs]
  from agree nonneg have "\<exists>coefs_dict. coefs_array_to_dict [5, 6, 7::int] ?degrees = Inr coefs_dict
         \<and> map fst coefs_dict = map fst ?degrees
         \<and> list_all2 (\<lambda>(v, d) (v', c). v' = v \<and> int (length c) = d + 1) ?degrees coefs_dict"
    by blast
  moreover have "list_all (\<lambda>(v, d). 0 \<le> d) ?degrees" by simp
  ultimately show ?thesis using dist size differs fails by blast
qed

text \<open>
  C3. Converting a coefficient dict to the flat array and back gives a dict with the same
  keys and the same values, under two conditions that the claim does not state: the
  iteration order of \<open>degrees\<close>, which \<open>coefs_array_to_dict\<close> follows, is the model's order
  of dependent variables, which \<open>coefs_dict_to_array\<close> follows; and there is at least one
  variable, since numpy does not stack an empty list. The other hypotheses are the claim's:
  the dict has the variables of \<open>degrees\<close> as its keys, and the slice of each has length
  degree + 1. Equality of dicts is equality of what they map, as Python's \<^verbatim>\<open>==\<close> on dicts
  is.
\<close>

theorem coefs_round_trip:
  assumes order: "map fst degrees = dependent_vars (model_attr self)"
    and nonempty: "dependent_vars (model_attr self) \<noteq> []"
    and dist: "distinct (map fst degrees)"
    and keys: "fst ` set coefs_dict = fst ` set degrees"
    and sizes: "\<forall>(v, d) \<in> set degrees. \<exists>c. map_of coefs_dict v = Some c \<and> int (length c) = d + 1"
  shows "\<exists>coefs_array coefs_dict'.
           coefs_dict_to_array self coefs_dict = Inr coefs_array
         \<and> coefs_array_to_dict coefs_array degrees = Inr coefs_dict'
         \<and> map_of coefs_dict' = map_of coefs_dict
         \<and> fst ` set coefs_dict' = fst ` set coefs_dict"
proof -
  let ?vars = "map fst degrees"
  let ?cs = "map (\<lambda>v. the (map_of coefs_dict v)) ?vars"
  have sub: "set ?vars \<subseteq> fst ` set coefs_dict" using keys by auto
  have ne: "?cs \<noteq> []" using nonempty order by auto
  have arr: "coefs_dict_to_array self coefs_dict = Inr (concat ?cs)"
    using coefs_dict_to_array_loop_ok [OF sub] ne
    by (simp add: coefs_dict_to_array_def order [symmetric] hstack_def)
  have all2: "list_all2 (\<lambda>(v, d) c. int (length c) = d + 1) degrees ?cs"
  proof -
    have "int (length (the (map_of coefs_dict (fst p)))) = snd p + 1" if "p \<in> set degrees" for p
      using sizes that by (cases p) fastforce
    then show ?thesis
      by (simp add: list_all2_conv_all_nth case_prod_beta)
  qed
  have ch: "chunks degrees (concat ?cs) = ?cs"
    using chunks_concat [OF all2, of "[]"] by simp
  have size: "int (length (concat ?cs)) = (\<Sum>(v, d)\<leftarrow>degrees. d + 1)"
    by (rule length_concat_chunks [OF all2])
  have conv: "coefs_array_to_dict (concat ?cs) degrees = Inr (zip ?vars ?cs)"
    using coefs_array_to_dict_ok [OF dist size] ch by simp
  have mz: "map_of (zip ?vars ?cs) =
      (\<lambda>x. if x \<in> set ?vars then Some (the (map_of coefs_dict x)) else None)"
    by (rule map_of_zip_map)
  have m: "map_of (zip ?vars ?cs) = map_of coefs_dict"
  proof
    fix x
    show "map_of (zip ?vars ?cs) x = map_of coefs_dict x"
    proof (cases "x \<in> set ?vars")
      case True
      then obtain d where "(x, d) \<in> set degrees" by auto
      with sizes obtain c where "map_of coefs_dict x = Some c" by blast
      with True show ?thesis unfolding mz by simp
    next
      case False
      then have "x \<notin> fst ` set coefs_dict" using keys by auto
      then have "map_of coefs_dict x = None" by (simp add: map_of_eq_None_iff)
      with False show ?thesis unfolding mz by simp
    qed
  qed
  have k: "fst ` set (zip ?vars ?cs) = fst ` set coefs_dict"
    using m by (metis dom_map_of_conv_image_fst)
  show ?thesis using arr conv m k by blast
qed

theorem coefs_round_trip_witness:
  "map fst [(''x'', 0), (''y'', 1::int)] = dependent_vars (model_attr (bare_solver [''x'', ''y'']))
   \<and> dependent_vars (model_attr (bare_solver [''x'', ''y''])) \<noteq> []
   \<and> distinct (map fst [(''x'', 0), (''y'', 1::int)])
   \<and> fst ` set [(''y'', [6, 7]), (''x'', [5::int])] = fst ` set [(''x'', 0), (''y'', 1::int)]
   \<and> list_all (\<lambda>(v, d). \<exists>c. map_of [(''y'', [6, 7]), (''x'', [5::int])] v = Some c
                                \<and> int (length c) = d + 1)
         [(''x'', 0), (''y'', 1::int)]
   \<and> (\<exists>coefs_array coefs_dict'.
           coefs_dict_to_array (bare_solver [''x'', ''y'']) [(''y'', [6, 7]), (''x'', [5])]
             = Inr coefs_array
         \<and> coefs_array_to_dict coefs_array [(''x'', 0), (''y'', 1)] = Inr coefs_dict'
         \<and> map_of coefs_dict' = map_of [(''y'', [6, 7]), (''x'', [5::int])]
         \<and> fst ` set coefs_dict' = fst ` set [(''y'', [6, 7]), (''x'', [5::int])])"
proof -
  let ?degrees = "[(''x'', 0), (''y'', 1::int)]"
  let ?coefs = "[(''y'', [6, 7]), (''x'', [5::int])]"
  let ?self = "bare_solver [''x'', ''y'']"
  have order: "map fst ?degrees = dependent_vars (model_attr ?self)"
    by (simp add: bare_solver_def solver_of_def)
  have nonempty: "dependent_vars (model_attr ?self) \<noteq> []"
    by (simp add: bare_solver_def solver_of_def)
  have dist: "distinct (map fst ?degrees)" by simp
  have keys: "fst ` set ?coefs = fst ` set ?degrees" by auto
  have sizes: "\<forall>(v, d) \<in> set ?degrees. \<exists>c. map_of ?coefs v = Some c \<and> int (length c) = d + 1"
    by simp
  have sizes': "list_all (\<lambda>(v, d). \<exists>c. map_of ?coefs v = Some c \<and> int (length c) = d + 1)
      ?degrees"
    by simp
  note rt = coefs_round_trip [OF order nonempty dist keys sizes]
  from order nonempty dist keys sizes' rt show ?thesis by blast
qed

text \<open>
  The claim as stated fails where the two orders differ: with the dependent variables
  \<open>x, y\<close> and a \<open>degrees\<close> that iterates \<open>y, x\<close>, the array \<open>[1, 2, 3]\<close> built from
  \<open>x \<mapsto> [1]\<close>, \<open>y \<mapsto> [2, 3]\<close> is cut into \<open>y \<mapsto> [1, 2]\<close>, \<open>x \<mapsto> [3]\<close>. It also fails on
  the empty mapping, where stacking raises.
\<close>

theorem coefs_round_trip_counterexample:
  "coefs_dict_to_array (bare_solver [''x'', ''y'']) [(''x'', [1]), (''y'', [2, 3])] = Inr [1, 2, 3]
   \<and> coefs_array_to_dict [1, 2, 3::int] [(''y'', 1), (''x'', 0)]
       = Inr [(''y'', [1, 2]), (''x'', [3])]
   \<and> map_of [(''y'', [1, 2]), (''x'', [3::int])] ''x'' \<noteq> map_of [(''x'', [1]), (''y'', [2, 3])] ''x''
   \<and> coefs_dict_to_array (bare_solver []) []
       = Inl (ValueError ''need at least one array to concatenate'')"
  by (simp add: coefs_dict_to_array_def coefs_array_to_dict_def bare_solver_def solver_of_def dict_get_def
      hstack_def slice_to_def slice_from_def slice_index_def)

subsection \<open>Parameters\<close>

lemma fold_update_fresh:
  "distinct (map fst pairs) \<Longrightarrow> fst ` set pairs \<inter> fst ` set d = {} \<Longrightarrow>
   fold (\<lambda>(k, v) d. AList.update k v d) pairs d = d @ pairs"
proof (induction pairs arbitrary: d)
  case Nil
  then show ?case by simp
next
  case (Cons p pairs)
  obtain k v where p: "p = (k, v)" by (cases p)
  have fresh: "k \<notin> fst ` set d" using Cons.prems(2) by (auto simp: p)
  have "fold (\<lambda>(k, v) d. AList.update k v d) pairs (d @ [(k, v)]) = (d @ [(k, v)]) @ pairs"
    using Cons.prems by (intro Cons.IH) (auto simp: p)
  then show ?case by (simp add: p update_fresh [OF fresh])
qed

lemma OrderedDict_distinct: "distinct (map fst pairs) \<Longrightarrow> OrderedDict pairs = pairs"
  using fold_update_fresh [of pairs "[]"] by (simp add: OrderedDict_def)

lemma distinct_sorted_items: "distinct (map fst d) \<Longrightarrow> distinct (map fst (sorted_items d))"
  by (simp add: sorted_items_def distinct_map)

lemma order_params_distinct: "distinct (map fst d) \<Longrightarrow> order_params d = sort_key fst d"
  using OrderedDict_distinct [OF distinct_sorted_items]
  by (simp add: order_params_def sorted_items_def)

lemma sorted_keys_unique:
  assumes "distinct (map fst xs)" "distinct (map fst ys)" "set xs = set ys"
    "sorted (map fst xs)" "sorted (map fst ys)"
  shows "xs = (ys :: ('k::linorder \<times> 'v) list)"
proof -
  have "inj_on fst (set xs \<union> set ys)"
    using assms(1,3) by (simp add: distinct_map)
  then show ?thesis
    using assms by (intro map_sorted_distinct_set_unique [of fst])
qed

lemma order_params_canonical:
  assumes "distinct (map fst d)" "distinct (map fst d')" "set d' = set d"
  shows "order_params d' = order_params d"
proof -
  have "sort_key fst d' = sort_key fst d"
    using assms by (intro sorted_keys_unique) (simp_all add: distinct_map)
  then show ?thesis using assms by (simp add: order_params_distinct)
qed

lemma Solver_init_ok:
  "Solver_init (PyModel m) (PyDict p) = Inr (solver_of m (order_params p))"
  by (simp add: Solver_init_def solver_of_def validate_model_def validate_params_def)

text \<open>
  C5. Assigning a dict to \<^verbatim>\<open>params\<close> stores exactly its key-value pairs, with the keys in
  strictly ascending order. The stored dict is the same whatever the iteration order of the
  assigned dict was, so the canonical form is a function of the pairs alone; the assignment
  changes no other attribute of the solver; and the constructor stores the same dict as the
  setter. Assigning \<^verbatim>\<open>{'b': 1, 'a': 2}\<close> stores the keys in the order \<open>a, b\<close>. That the keys of
  the assigned dict are distinct is the hypothesis.
\<close>

theorem params_setter_canonical:
  fixes self :: "('e, 'a) Solver"
  assumes dist: "distinct (map fst d)"
  shows "(\<exists>self'. params_setter self (PyDict d) = Inr self'
           \<and> set (params_attr self') = set d
           \<and> map_of (params_attr self') = map_of d
           \<and> sorted_wrt (<) (map fst (params_attr self'))
           \<and> self' = self\<lparr>params_attr := params_attr self'\<rparr>
           \<and> (\<forall>d'. distinct (map fst d') \<and> set d' = set d \<longrightarrow>
                  params_setter self (PyDict d') = Inr self')
           \<and> (\<forall>m :: 'e SymbolicModel. \<exists>s. Solver_init (PyModel m) (PyDict d) = Inr s
                  \<and> params_attr s = params_attr self'))
       \<and> map fst (order_params [(''b'', 1::int), (''a'', 2)]) = [''a'', ''b'']"
proof -
  let ?p = "order_params d"
  have eq: "?p = sort_key fst d" by (rule order_params_distinct [OF dist])
  have set: "set ?p = set d" by (simp add: eq)
  have dist': "distinct (map fst ?p)" using dist by (simp add: eq distinct_map)
  have m: "map_of ?p = map_of d"
    using map_of_inject_set [OF dist' dist] set by simp
  have srt: "sorted_wrt (<) (map fst ?p)"
    using dist' by (simp add: eq strict_sorted_iff)
  have canon: "params_setter self (PyDict d') = Inr (self\<lparr>params_attr := ?p\<rparr>)"
    if "distinct (map fst d')" "set d' = set d" for d'
    using order_params_canonical [OF dist that]
    by (simp add: params_setter_def validate_params_def)
  have init: "\<exists>s. Solver_init (PyModel m) (PyDict d :: ('e, 'a) pyobj) = Inr s
      \<and> params_attr s = ?p" for m :: "'e SymbolicModel"
    by (simp add: Solver_init_ok solver_of_def)
  have setter: "params_setter self (PyDict d) = Inr (self\<lparr>params_attr := ?p\<rparr>)"
    by (simp add: params_setter_def validate_params_def)
  have example: "map fst (order_params [(''b'', 1::int), (''a'', 2)]) = [''a'', ''b'']"
    by (simp add: order_params_def sorted_items_def OrderedDict_def)
  have "\<exists>self'. params_setter self (PyDict d) = Inr self'
           \<and> set (params_attr self') = set d
           \<and> map_of (params_attr self') = map_of d
           \<and> sorted_wrt (<) (map fst (params_attr self'))
           \<and> self' = self\<lparr>params_attr := params_attr self'\<rparr>
           \<and> (\<forall>d'. distinct (map fst d') \<and> set d' = set d \<longrightarrow>
                  params_setter self (PyDict d') = Inr self')
           \<and> (\<forall>m :: 'e SymbolicModel. \<exists>s. Solver_init (PyModel m) (PyDict d) = Inr s
                  \<and> params_attr s = params_attr self')"
    using setter set m srt canon init
    by (intro exI [of _ "self\<lparr>params_attr := ?p\<rparr>"]) simp
  with example show ?thesis by (rule conjI [rotated])
qed

theorem params_setter_canonical_witness:
  "distinct (map fst [(''b'', 1::int), (''a'', 2)])
   \<and> (\<exists>self'. params_setter solver_growth (PyDict [(''b'', 1), (''a'', 2)]) = Inr self'
         \<and> set (params_attr self') = set [(''b'', 1), (''a'', 2)]
         \<and> map_of (params_attr self') = map_of [(''b'', 1), (''a'', 2)]
         \<and> sorted_wrt (<) (map fst (params_attr self'))
         \<and> params_setter solver_growth (PyDict [(''a'', 2), (''b'', 1)]) = Inr self')"
proof -
  let ?d = "[(''b'', 1::int), (''a'', 2)]"
  let ?d' = "[(''a'', 2::int), (''b'', 1)]"
  have dist: "distinct (map fst ?d)" by simp
  have other: "distinct (map fst ?d') \<and> set ?d' = set ?d" by auto
  from params_setter_canonical [OF dist, of solver_growth, THEN conjunct1] other
  have "\<exists>self'. params_setter solver_growth (PyDict ?d) = Inr self'
         \<and> set (params_attr self') = set ?d
         \<and> map_of (params_attr self') = map_of ?d
         \<and> sorted_wrt (<) (map fst (params_attr self'))
         \<and> params_setter solver_growth (PyDict ?d') = Inr self'"
    by blast
  with dist show ?thesis by blast
qed

subsection \<open>Validation\<close>

text \<open>
  C7. A value assigned as the model that is not an instance of \<^verbatim>\<open>models.SymbolicModel\<close>, a
  plain dict for one, and a value assigned as the parameters that is not a dict, both fail
  in the validator with the \<^verbatim>\<open>AttributeError\<close> that is the spec's ConfigurationError. Nothing
  catches it: the setter and the constructor return the same error, and no solver is
  made.
\<close>

theorem validation_fails_fast:
  fixes self :: "('e, 'a) Solver" and m :: "'e SymbolicModel"
  shows "(class_of model \<noteq> ClsSymbolicModel \<longrightarrow>
       (\<exists>e. e = AttributeError ''Attribute 'model' must have type models.SymbolicModel, not {}''
               (class_of model)
          \<and> validate_model model = Inl e
          \<and> model_setter self model = Inl e
          \<and> Solver_init model params = Inl e))
   \<and> (class_of value \<noteq> ClsDict \<longrightarrow>
       (\<exists>e. e = AttributeError ''Attribute 'params' must have type dict, not {}'' (class_of value)
          \<and> validate_params value = Inl e
          \<and> params_setter self value = Inl e
          \<and> Solver_init (PyModel m) value = Inl e))"
  by (cases model; cases "value")
     (simp_all add: validate_model_def validate_params_def model_setter_def params_setter_def
        Solver_init_def)

theorem validation_fails_fast_witness:
  "class_of (PyDict [(''a'', 2)] :: (expr, int) pyobj) \<noteq> ClsSymbolicModel
   \<and> validate_model (PyDict [(''a'', 2)] :: (expr, int) pyobj) =
       Inl (AttributeError ''Attribute 'model' must have type models.SymbolicModel, not {}''
             ClsDict)
   \<and> model_setter solver_growth (PyDict [(''a'', 2)]) =
       Inl (AttributeError ''Attribute 'model' must have type models.SymbolicModel, not {}''
             ClsDict)
   \<and> Solver_init (PyDict [(''a'', 2)] :: (expr, int) pyobj) (PyDict [(''a'', 2)]) =
       Inl (AttributeError ''Attribute 'model' must have type models.SymbolicModel, not {}''
             ClsDict)
   \<and> class_of (PyList [1, 2] :: (expr, int) pyobj) \<noteq> ClsDict
   \<and> validate_params (PyList [1, 2] :: (expr, int) pyobj) =
       Inl (AttributeError ''Attribute 'params' must have type dict, not {}'' ClsList)
   \<and> params_setter solver_growth (PyList [1, 2]) =
       Inl (AttributeError ''Attribute 'params' must have type dict, not {}'' ClsList)
   \<and> Solver_init (PyModel model_growth) (PyList [1, 2 :: int]) =
       Inl (AttributeError ''Attribute 'params' must have type dict, not {}'' ClsList)"
proof -
  let ?model = "PyDict [(''a'', 2)] :: (expr, int) pyobj"
  let ?assigned = "PyList [1, 2] :: (expr, int) pyobj"
  have c1: "class_of ?model \<noteq> ClsSymbolicModel" and k1: "class_of ?model = ClsDict" by simp_all
  have c2: "class_of ?assigned \<noteq> ClsDict" and k2: "class_of ?assigned = ClsList" by simp_all
  note v = validation_fails_fast [of ?model solver_growth "PyDict [(''a'', 2)]" ?assigned model_growth]
  from v [THEN conjunct1, rule_format, OF c1] v [THEN conjunct2, rule_format, OF c2] c1 c2
  show ?thesis unfolding k1 k2 by blast
qed

text \<open>
  C8. \<open>validate_params\<close> accepts a value exactly when it is a dict, and returns the dict as it
  is; every other value fails with the \<^verbatim>\<open>AttributeError\<close> that is the spec's
  ConfigurationError. It does not look at the values of the dict: the claim's "key to
  numeric" is not checked, and a dict whose values are not numbers is accepted.
\<close>

theorem validate_params_accepts_dicts:
  "(validate_params value = Inr d \<longleftrightarrow> value = PyDict d)
   \<and> ((\<exists>d'. validate_params value = Inr d') \<longleftrightarrow> class_of value = ClsDict)
   \<and> (validate_params value =
         Inl (AttributeError ''Attribute 'params' must have type dict, not {}'' (class_of value))
       \<longleftrightarrow> class_of value \<noteq> ClsDict)"
  by (cases "value") (simp_all add: validate_params_def)

theorem validate_params_accepts_dicts_witness:
  "validate_params (PyDict [(''a'', Text ''two'')] :: (expr, pyvalue) pyobj)
     = Inr [(''a'', Text ''two'')]
   \<and> validate_params (PyStr ''a=2'' :: (expr, pyvalue) pyobj)
     = Inl (AttributeError ''Attribute 'params' must have type dict, not {}'' ClsStr)"
proof -
  let ?dict = "PyDict [(''a'', Text ''two'')] :: (expr, pyvalue) pyobj"
  let ?str = "PyStr ''a=2'' :: (expr, pyvalue) pyobj"
  have k: "class_of ?str \<noteq> ClsDict" and c: "class_of ?str = ClsStr" by simp_all
  from validate_params_accepts_dicts [of ?dict "[(''a'', Text ''two'')]"]
  have accepted: "validate_params ?dict = Inr [(''a'', Text ''two'')]" by blast
  from validate_params_accepts_dicts [of ?str] k
  have "validate_params ?str =
      Inl (AttributeError ''Attribute 'params' must have type dict, not {}'' (class_of ?str))"
    by blast
  with accepted show ?thesis unfolding c by blast
qed

text \<open>
  The claim as stated fails on a dict with a value that is not numeric: it is accepted.
\<close>

theorem validate_params_numeric_counterexample:
  "validate_params (PyDict [(''alpha'', Text ''one'')] :: (expr, pyvalue) pyobj)
     = Inr [(''alpha'', Text ''one'')]
   \<and> \<not> is_numeric (Text ''one'')"
  by (simp add: validate_params_def)

subsection \<open>The result before a solve\<close>

text \<open>
  C10. The constructor sets the model and the parameters and leaves \<^verbatim>\<open>_result\<close> unset. On the
  solver it returns, the property \<^verbatim>\<open>result\<close> raises, and so do \<^verbatim>\<open>coefficients\<close>,
  \<^verbatim>\<open>derivatives\<close>, \<^verbatim>\<open>functions\<close> and \<^verbatim>\<open>residual_functions\<close>, which read it first: there is no
  value for "no result yet". This holds for any basis factories and any degrees, kind and
  domain.
\<close>

theorem uninitialized_result_fails:
  assumes "Solver_init model params = Inr self"
  shows "result_attr self = None
       \<and> result self = Inl (MissingAttribute ''Solver'' ''_result'')
       \<and> coefficients self degrees = Inl (MissingAttribute ''Solver'' ''_result'')
       \<and> derivatives basis_derivative_factory self degrees kind domain
           = Inl (MissingAttribute ''Solver'' ''_result'')
       \<and> basis_functions basis_function_factory self degrees kind domain
           = Inl (MissingAttribute ''Solver'' ''_result'')
       \<and> residual_functions lambdify basis_derivative_factory basis_function_factory self
             degrees kind domain
           = Inl (MissingAttribute ''Solver'' ''_result'')"
proof -
  have unset: "result_attr self = None"
    using assms by (auto simp: Solver_init_def split: sum.splits)
  then have r: "result self = Inl (MissingAttribute ''Solver'' ''_result'')"
    by (simp add: result_def)
  then have c: "coefficients self degrees = Inl (MissingAttribute ''Solver'' ''_result'')"
    by (simp add: coefficients_def)
  then show ?thesis
    using unset r by (simp add: derivatives_def basis_functions_def residual_functions_def)
qed

theorem uninitialized_result_fails_witness:
  "Solver_init (PyModel model_growth) (PyDict [(''a'', 2)]) = Inr solver_growth
   \<and> result_attr solver_growth = None
   \<and> result solver_growth = Inl (MissingAttribute ''Solver'' ''_result'')
   \<and> coefficients solver_growth [(''x'', 1)] = Inl (MissingAttribute ''Solver'' ''_result'')
   \<and> derivatives monomial_derivative_factory solver_growth [(''x'', 1)] () (0, 1)
       = Inl (MissingAttribute ''Solver'' ''_result'')
   \<and> basis_functions monomial_function_factory solver_growth [(''x'', 1)] () (0, 1)
       = Inl (MissingAttribute ''Solver'' ''_result'')
   \<and> residual_functions lambdify_expr monomial_derivative_factory monomial_function_factory
         solver_growth [(''x'', 1)] () (0, 1)
       = Inl (MissingAttribute ''Solver'' ''_result'')"
proof -
  have init: "Solver_init (PyModel model_growth) (PyDict [(''a'', 2)]) = Inr solver_growth"
    by (simp add: Solver_init_ok solver_growth_def order_params_def sorted_items_def
        OrderedDict_def)
  from uninitialized_result_fails [OF init, of "[(''x'', 1)]" monomial_derivative_factory "()"
      "(0, 1)" monomial_function_factory lambdify_expr] init
  show ?thesis by blast
qed

subsection \<open>The cache of compiled right-hand sides\<close>

lemma rhs_functions_miss:
  assumes "map_of cache var = None" and "map_of (rhs (model_attr self)) var = Some eqn"
  shows "rhs_functions lambdify cache self var =
           Inr (lambdify (symbolic_args self) eqn,
                AList.update var (lambdify (symbolic_args self) eqn) cache)"
  using assms
  by (simp add: rhs_functions_def dict_get_def lambdify_factory_def update_conv')

lemma rhs_functions_hit:
  assumes "map_of cache var = Some f"
  shows "rhs_functions lambdify cache self var = Inr (f, cache)"
  using assms by (simp add: rhs_functions_def dict_get_def)


lemma symbolic_args_eq:
  "symbolic_args self =
     independent_var (model_attr self) # dependent_vars (model_attr self)
       @ map fst (params_attr self)"
  by (simp add: symbolic_args_def symbolic_vars_def symbolic_params_def)

lemma symbolic_args_examples:
  "symbolic_args solver_growth = [''t'', ''x'', ''a'']"
  "symbolic_args solver_decay = [''t'', ''x'', ''a'']"
  by (simp_all add: symbolic_args_eq solver_growth_def solver_decay_def solver_of_def
      model_growth_def model_decay_def)

text \<open>
  C6. On the first request for a variable, \<open>rhs_functions\<close> compiles the right-hand side of
  the requesting solver's model, with that solver's symbols, and stores the callable in the
  class's cache under the variable alone. Every later request for the same variable, from
  any solver \<open>self2\<close> and whatever would compile now (\<open>lambdify'\<close>), returns the stored
  callable and leaves the cache as it is: a second solver whose model reuses the name gets
  the first model's function.
\<close>

theorem rhs_functions_cached_by_name:
  fixes self1 self2 :: "('e, 'a) Solver"
  assumes miss: "map_of cache var = None"
    and eqn: "map_of (rhs (model_attr self1)) var = Some eqn"
  shows "\<exists>f cache1.
           f = lambdify (symbolic_args self1) eqn
         \<and> rhs_functions lambdify cache self1 var = Inr (f, cache1)
         \<and> map_of cache1 = (map_of cache)(var \<mapsto> f)
         \<and> rhs_functions lambdify' cache1 self2 var = Inr (f, cache1)"
proof -
  let ?f = "lambdify (symbolic_args self1) eqn"
  let ?c = "AList.update var ?f cache"
  have first: "rhs_functions lambdify cache self1 var = Inr (?f, ?c)"
    by (rule rhs_functions_miss [OF miss eqn])
  have stored: "map_of ?c = (map_of cache)(var \<mapsto> ?f)"
    by (rule update_conv')
  then have "map_of ?c var = Some ?f" by simp
  then have second: "rhs_functions lambdify' ?c self2 var = Inr (?f, ?c)"
    by (rule rhs_functions_hit)
  show ?thesis using first stored second by blast
qed

theorem rhs_functions_cached_by_name_witness:
  "map_of ([] :: int rhs_cache) ''x'' = None
   \<and> map_of (rhs (model_attr solver_growth)) ''x'' = Some (Times (Sym ''a'') (Sym ''x''))
   \<and> map_of (rhs (model_attr solver_decay)) ''x'' = Some (Minus (Num 0) (Sym ''x''))
   \<and> (\<exists>f cache1.
         rhs_functions lambdify_expr [] solver_growth ''x'' = Inr (f, cache1)
       \<and> rhs_functions lambdify_expr cache1 solver_decay ''x'' = Inr (f, cache1)
       \<and> f [0, 5, 2] = 10
       \<and> lambdify_expr (symbolic_args solver_decay) (Minus (Num 0) (Sym ''x'')) [0, 5, 2] = - 5)"
proof -
  have miss: "map_of ([] :: int rhs_cache) ''x'' = None" by simp
  have eqn: "map_of (rhs (model_attr solver_growth)) ''x'' = Some (Times (Sym ''a'') (Sym ''x''))"
    by (simp add: solver_growth_def solver_of_def model_growth_def)
  have eqn': "map_of (rhs (model_attr solver_decay)) ''x'' = Some (Minus (Num 0) (Sym ''x''))"
    by (simp add: solver_decay_def solver_of_def model_decay_def)
  from rhs_functions_cached_by_name [OF miss eqn, of lambdify_expr lambdify_expr solver_decay]
  obtain f cache1 where
    f: "f = lambdify_expr (symbolic_args solver_growth) (Times (Sym ''a'') (Sym ''x''))"
    and first: "rhs_functions lambdify_expr [] solver_growth ''x'' = Inr (f, cache1)"
    and second: "rhs_functions lambdify_expr cache1 solver_decay ''x'' = Inr (f, cache1)"
    by blast
  have growth: "f [0, 5, 2] = 10"
    by (simp add: f symbolic_args_examples lambdify_expr_def)
  have decay: "lambdify_expr (symbolic_args solver_decay) (Minus (Num 0) (Sym ''x'')) [0, 5, 2]
      = - 5"
    by (simp add: symbolic_args_examples lambdify_expr_def)
  from miss eqn eqn' first second growth decay show ?thesis by blast
qed


subsection \<open>Residual functions\<close>

lemma evaluate_basis_funcs_loop_ok:
  "list_all2 (\<lambda>v b. map_of basis_funcs v = Some b) vars bs \<Longrightarrow>
   evaluate_basis_funcs_loop vars basis_funcs points = Inr (map (\<lambda>b. b points) bs)"
  by (induction vars bs rule: list_all2_induct) (simp_all add: dict_get_def)

lemma evaluate_basis_funcs_ok:
  "list_all2 (\<lambda>v b. map_of basis_funcs v = Some b) (dependent_vars (model_attr self)) bs \<Longrightarrow>
   evaluate_basis_funcs self basis_funcs points = Inr (map (\<lambda>b. b points) bs)"
  by (simp add: evaluate_basis_funcs_def evaluate_basis_funcs_loop_ok)




subsection \<open>Boundary residuals\<close>

lemma lower_boundary_condition_eq:
  "lower_boundary_condition lambdify self =
     (case lower (boundary_conditions (model_attr self)) of
        None \<Rightarrow> (None, self)
      | Some c \<Rightarrow>
          (case lower_boundary_condition_cache self of
             None \<Rightarrow> (Some (lambdify (symbolic_args self) c),
                       self\<lparr>lower_boundary_condition_cache := Some (lambdify (symbolic_args self) c)\<rparr>)
           | Some g \<Rightarrow> (Some g, self)))"
  by (auto simp: lower_boundary_condition_def lambdify_factory_def Let_def split: option.splits)

lemma upper_boundary_condition_eq:
  "upper_boundary_condition lambdify self =
     (case upper (boundary_conditions (model_attr self)) of
        None \<Rightarrow> (None, self)
      | Some c \<Rightarrow>
          (case upper_boundary_condition_cache self of
             None \<Rightarrow> (Some (lambdify (symbolic_args self) c),
                       self\<lparr>upper_boundary_condition_cache := Some (lambdify (symbolic_args self) c)\<rparr>)
           | Some g \<Rightarrow> (Some g, self)))"
  by (auto simp: upper_boundary_condition_def lambdify_factory_def Let_def split: option.splits)

lemma symbolic_args_cache_update [simp]:
  "symbolic_args (self\<lparr>lower_boundary_condition_cache := c\<rparr>) = symbolic_args self"
  "symbolic_args (self\<lparr>upper_boundary_condition_cache := c\<rparr>) = symbolic_args self"
  by (simp_all add: symbolic_args_def symbolic_vars_def symbolic_params_def)



lemma evaluate_lower_boundary_residual_ok:
  assumes bf: "list_all2 (\<lambda>v b. map_of basis_funcs v = Some b) (dependent_vars (model_attr self)) bs"
  shows "evaluate_lower_boundary_residual lambdify self basis_funcs lower_bound =
     (case lower (boundary_conditions (model_attr self)) of
        None \<Rightarrow> Inr (None, self)
      | Some c \<Rightarrow>
          (let f = (case lower_boundary_condition_cache self of
                      None \<Rightarrow> lambdify (symbolic_args self) c | Some g \<Rightarrow> g)
           in Inr (Some (f (lower_bound # map (\<lambda>b. b lower_bound) bs @ map snd (params_attr self))),
                   self\<lparr>lower_boundary_condition_cache := Some f\<rparr>)))"
proof -
  have ev: "evaluate_basis_funcs (self\<lparr>lower_boundary_condition_cache := c\<rparr>) basis_funcs p
      = Inr (map (\<lambda>b. b p) bs)" for c p
    using bf by (intro evaluate_basis_funcs_ok) simp
  show ?thesis
    using evaluate_basis_funcs_ok [OF bf] ev
    by (auto simp: evaluate_lower_boundary_residual_def lower_boundary_condition_eq Let_def
        split: option.splits)
qed

lemma evaluate_upper_boundary_residual_ok:
  assumes bf: "list_all2 (\<lambda>v b. map_of basis_funcs v = Some b) (dependent_vars (model_attr self)) bs"
  shows "evaluate_upper_boundary_residual lambdify self basis_funcs upper_bound =
     (case upper (boundary_conditions (model_attr self)) of
        None \<Rightarrow> Inr (None, self)
      | Some c \<Rightarrow>
          (let f = (case upper_boundary_condition_cache self of
                      None \<Rightarrow> lambdify (symbolic_args self) c | Some g \<Rightarrow> g)
           in Inr (Some (f (upper_bound # map (\<lambda>b. b upper_bound) bs @ map snd (params_attr self))),
                   self\<lparr>upper_boundary_condition_cache := Some f\<rparr>)))"
proof -
  have ev: "evaluate_basis_funcs (self\<lparr>upper_boundary_condition_cache := c\<rparr>) basis_funcs p
      = Inr (map (\<lambda>b. b p) bs)" for c p
    using bf by (intro evaluate_basis_funcs_ok) simp
  show ?thesis
    using evaluate_basis_funcs_ok [OF bf] ev
    by (auto simp: evaluate_upper_boundary_residual_def upper_boundary_condition_eq Let_def
        split: option.splits)
qed




subsection \<open>The solve step\<close>

lemma rhs_functions_resolved:
  "rhs_functions lambdify cache self var =
     (case resolved_rhs lambdify cache self var of
        None \<Rightarrow> Inl (KeyError var)
      | Some f \<Rightarrow> Inr (f, if map_of cache var = None then AList.update var f cache else cache))"
  by (auto simp: rhs_functions_def resolved_rhs_def dict_get_def lambdify_factory_def
      update_conv' split: option.splits)

lemma resolved_rhs_filled:
  assumes "resolved_rhs lambdify cache self var = Some f"
  shows "resolved_rhs lambdify (AList.update var f cache) self w = resolved_rhs lambdify cache self w"
  using assms by (auto simp: resolved_rhs_def update_conv' split: option.splits)

lemma rhs_functions_keeps_resolution:
  assumes "rhs_functions lambdify cache self var = Inr (f, cache')"
  shows "resolved_rhs lambdify cache' self w = resolved_rhs lambdify cache self w"
proof (cases "resolved_rhs lambdify cache self var")
  case None
  with assms show ?thesis by (simp add: rhs_functions_resolved)
next
  case (Some g)
  with assms have "g = f" and "cache' = cache \<or> cache' = AList.update var f cache"
    by (auto simp: rhs_functions_resolved split: if_splits)
  with Some show ?thesis by (auto simp: resolved_rhs_filled)
qed

lemma symbolic_args_cong:
  "model_attr self2 = model_attr self1 \<Longrightarrow> params_attr self2 = params_attr self1 \<Longrightarrow>
   symbolic_args self2 = symbolic_args self1"
  by (simp add: symbolic_args_eq)

lemma resolved_rhs_cong:
  "model_attr self2 = model_attr self1 \<Longrightarrow> params_attr self2 = params_attr self1 \<Longrightarrow>
   resolved_rhs lambdify cache self2 var = resolved_rhs lambdify cache self1 var"
  by (simp add: resolved_rhs_def symbolic_args_eq split: option.splits)

lemma evaluate_basis_funcs_cong:
  "model_attr self2 = model_attr self1 \<Longrightarrow>
   evaluate_basis_funcs self2 basis_funcs points = evaluate_basis_funcs self1 basis_funcs points"
  by (simp add: evaluate_basis_funcs_def)

lemma residual_function_resolved:
  "residual_function_factory lambdify var bd bf cache self t =
     (case evaluate_basis_funcs self bf t of
        Inl e \<Rightarrow> Inl e
      | Inr values \<Rightarrow>
          (case dict_get bd var of
             Inl e \<Rightarrow> Inl e
           | Inr basis_deriv \<Rightarrow>
               (case resolved_rhs lambdify cache self var of
                  None \<Rightarrow> Inl (KeyError var)
                | Some f \<Rightarrow>
                    Inr (basis_deriv t - f (t # values @ map snd (params_attr self)),
                         if map_of cache var = None then AList.update var f cache else cache))))"
  by (simp add: residual_function_factory_def rhs_functions_resolved Let_def
      split: sum.splits option.splits)

lemma residual_function_frame:
  assumes m: "model_attr self2 = model_attr self1" and p: "params_attr self2 = params_attr self1"
    and ag: "resolve_alike lambdify S self1 c1 c2" and v: "var \<in> S"
  shows "rel_sum (=) (\<lambda>(r, c1') (r', c2'). r = r' \<and> resolve_alike lambdify S self1 c1' c2')
           (residual_function_factory lambdify var bd bf c1 self1 t)
           (residual_function_factory lambdify var bd bf c2 self2 t)"
proof -
  have eq: "resolved_rhs lambdify c2 self2 var = resolved_rhs lambdify c1 self1 var"
    using ag v by (simp add: resolve_alike_def resolved_rhs_cong [OF m p])
  have keep: "resolve_alike lambdify S self1
        (if map_of c1 var = None then AList.update var f c1 else c1)
        (if map_of c2 var = None then AList.update var f c2 else c2)"
    if "resolved_rhs lambdify c1 self1 var = Some f" for f
  proof -
    have "resolved_rhs lambdify c2 self1 var = Some f"
      using ag v that by (simp add: resolve_alike_def)
    then show ?thesis
      using ag that by (simp add: resolve_alike_def resolved_rhs_filled)
  qed
  show ?thesis
    using keep
    by (auto simp: residual_function_resolved eq evaluate_basis_funcs_cong [OF m] p
        split: sum.splits option.splits)
qed

lemma map_of_construct_residual_funcs:
  "map_of (construct_residual_funcs lambdify bd bf) v =
     (if v \<in> fst ` set bd then Some (residual_function_factory lambdify v bd bf) else None)"
proof -
  have "map_of (fold (\<lambda>(var, basis_deriv) residual_funcs.
             AList.update var (residual_function_factory lambdify var bd bf) residual_funcs)
          (ps :: (var, 'a basis_func) dict) acc) v =
        (if v \<in> fst ` set ps then Some (residual_function_factory lambdify v bd bf)
         else map_of acc v)" for ps acc
    by (induction ps arbitrary: acc) (auto simp: update_conv')
  then show ?thesis by (simp add: construct_residual_funcs_def)
qed

lemma evaluate_residual_funcs_loop_frame:
  assumes m: "model_attr self2 = model_attr self1" and p: "params_attr self2 = params_attr self1"
    and "resolve_alike lambdify S self1 c1 c2" and "set vars \<subseteq> S"
  shows "rel_sum (=) (\<lambda>(rs, c1') (rs', c2'). rs = rs' \<and> resolve_alike lambdify S self1 c1' c2')
           (evaluate_residual_funcs_loop vars (construct_residual_funcs lambdify bd bf) nodes
              c1 self1)
           (evaluate_residual_funcs_loop vars (construct_residual_funcs lambdify bd bf) nodes
              c2 self2)"
  using assms(3,4)
proof (induction vars arbitrary: c1 c2)
  case Nil
  then show ?case by simp
next
  case (Cons v vars)
  let ?rfs = "construct_residual_funcs lambdify bd bf"
  show ?case
  proof (cases "v \<in> fst ` set bd")
    case False
    then show ?thesis by (simp add: dict_get_def map_of_construct_residual_funcs)
  next
    case True
    then have get: "dict_get ?rfs v = Inr (residual_function_factory lambdify v bd bf)"
      by (simp add: dict_get_def map_of_construct_residual_funcs)
    show ?thesis
    proof (cases "dict_get nodes v")
      case (Inl e)
      then show ?thesis by (simp add: get)
    next
      case (Inr points)
      have vS: "v \<in> S" using Cons.prems by simp
      note fr = residual_function_frame [OF m p Cons.prems(1) vS, of bd bf points]
      show ?thesis
      proof (cases "residual_function_factory lambdify v bd bf c1 self1 points")
        case (Inl e)
        with fr show ?thesis by (auto simp: get Inr elim!: rel_sum.cases)
      next
        case r1: (Inr p1)
        obtain x c1' where p1: "p1 = (x, c1')" by (cases p1)
        from fr r1 p1 obtain c2' where
          r2: "residual_function_factory lambdify v bd bf c2 self2 points = Inr (x, c2')"
          and ag: "resolve_alike lambdify S self1 c1' c2'"
          by (auto elim!: rel_sum.cases)
        have sub: "set vars \<subseteq> S" using Cons.prems by simp
        note ih = Cons.IH [OF ag sub]
        show ?thesis
          using ih by (auto simp: get Inr r1 p1 r2 elim!: rel_sum.cases split: sum.splits)
      qed
    qed
  qed
qed

lemma resolved_cache_update [simp]:
  "resolved_lower lambdify (self\<lparr>upper_boundary_condition_cache := c\<rparr>)
     = resolved_lower lambdify self"
  "resolved_upper lambdify (self\<lparr>lower_boundary_condition_cache := c\<rparr>)
     = resolved_upper lambdify self"
  by (simp_all add: resolved_lower_def resolved_upper_def split: option.splits)

lemma evaluate_lower_boundary_residual_resolved:
  "evaluate_lower_boundary_residual lambdify self bf p =
     (case resolved_lower lambdify self of
        None \<Rightarrow> Inr (None, self)
      | Some f \<Rightarrow>
          (case evaluate_basis_funcs self bf p of
             Inl e \<Rightarrow> Inl e
           | Inr values \<Rightarrow>
               Inr (Some (f (p # values @ map snd (params_attr self))),
                    self\<lparr>lower_boundary_condition_cache := Some f\<rparr>)))"
proof -
  have ev: "evaluate_basis_funcs (self\<lparr>lower_boundary_condition_cache := c\<rparr>) bf p
      = evaluate_basis_funcs self bf p" for c
    by (simp add: evaluate_basis_funcs_def)
  show ?thesis
    by (auto simp: evaluate_lower_boundary_residual_def lower_boundary_condition_eq
        resolved_lower_def ev Let_def split: option.splits sum.splits)
qed

lemma evaluate_upper_boundary_residual_resolved:
  "evaluate_upper_boundary_residual lambdify self bf p =
     (case resolved_upper lambdify self of
        None \<Rightarrow> Inr (None, self)
      | Some f \<Rightarrow>
          (case evaluate_basis_funcs self bf p of
             Inl e \<Rightarrow> Inl e
           | Inr values \<Rightarrow>
               Inr (Some (f (p # values @ map snd (params_attr self))),
                    self\<lparr>upper_boundary_condition_cache := Some f\<rparr>)))"
proof -
  have ev: "evaluate_basis_funcs (self\<lparr>upper_boundary_condition_cache := c\<rparr>) bf p
      = evaluate_basis_funcs self bf p" for c
    by (simp add: evaluate_basis_funcs_def)
  show ?thesis
    by (auto simp: evaluate_upper_boundary_residual_def upper_boundary_condition_eq
        resolved_upper_def ev Let_def split: option.splits sum.splits)
qed

lemma evaluate_boundary_residuals_frame:
  assumes m: "model_attr self2 = model_attr self1" and p: "params_attr self2 = params_attr self1"
    and l: "resolved_lower lambdify self2 = resolved_lower lambdify self1"
    and u: "resolved_upper lambdify self2 = resolved_upper lambdify self1"
  shows "map_sum id fst (evaluate_boundary_residuals lambdify self2 bf d)
       = map_sum id fst (evaluate_boundary_residuals lambdify self1 bf d)"
proof -
  have ev: "evaluate_basis_funcs self2 bf q = evaluate_basis_funcs self1 bf q" for q
    by (rule evaluate_basis_funcs_cong [OF m])
  have ev': "evaluate_basis_funcs (s\<lparr>lower_boundary_condition_cache := c\<rparr>) bf q
      = evaluate_basis_funcs s bf q" for c q and s :: "('a, 'b) Solver"
    by (simp add: evaluate_basis_funcs_def)
  show ?thesis
    by (auto simp: evaluate_boundary_residuals_def evaluate_lower_boundary_residual_resolved
        evaluate_upper_boundary_residual_resolved l u p ev ev' Let_def
        split: option.splits sum.splits)
qed

lemma evaluate_boundary_residuals_keeps_resolution:
  assumes "evaluate_boundary_residuals lambdify self bf d = Inr (residuals, self')"
  shows "model_attr self' = model_attr self \<and> params_attr self' = params_attr self
       \<and> resolved_lower lambdify self' = resolved_lower lambdify self
       \<and> resolved_upper lambdify self' = resolved_upper lambdify self"
  using assms
  by (auto simp: evaluate_boundary_residuals_def evaluate_lower_boundary_residual_resolved
      evaluate_upper_boundary_residual_resolved resolved_lower_def resolved_upper_def Let_def
      split: option.splits sum.splits)

lemma collocation_residuals_frame:
  fixes self1 :: "('e, 'a::minus) Solver"
  assumes m: "model_attr self2 = model_attr self1" and p: "params_attr self2 = params_attr self1"
    and l: "resolved_lower lambdify self2 = resolved_lower lambdify self1"
    and u: "resolved_upper lambdify self2 = resolved_upper lambdify self1"
    and ag: "resolve_alike lambdify (set (dependent_vars (model_attr self1))) self1 c1 c2"
  shows "map_sum id fst (collocation_residuals lambdify bdf bff c1 self1 nodes kind domain
            degrees coefs)
       = map_sum id fst (collocation_residuals lambdify bdf bff c2 self2 nodes kind domain
            degrees coefs)"
proof (cases "coefs_array_to_dict coefs degrees")
  case (Inl e)
  then show ?thesis by (simp add: collocation_residuals_def)
next
  case cd: (Inr cdict)
  show ?thesis
  proof (cases "construct_basis_derivs bdf cdict kind domain")
    case (Inl e)
    then show ?thesis by (simp add: collocation_residuals_def cd)
  next
    case bd: (Inr derivs)
    show ?thesis
    proof (cases "construct_basis_funcs bff cdict kind domain")
      case (Inl e)
      then show ?thesis by (simp add: collocation_residuals_def cd bd)
    next
      case bf: (Inr funcs)
      note fr = evaluate_residual_funcs_loop_frame
        [OF m p ag subset_refl, of derivs funcs nodes]
      note br = evaluate_boundary_residuals_frame [OF m p l u, of funcs domain]
      show ?thesis
        using fr br
        by (auto simp: collocation_residuals_def cd bd bf evaluate_residual_funcs_def m
            elim!: rel_sum.cases split: sum.splits)
    qed
  qed
qed

lemma residual_function_keeps_resolution:
  assumes "residual_function_factory lambdify var bd bf cache self t = Inr (r, cache')"
  shows "resolved_rhs lambdify cache' self w = resolved_rhs lambdify cache self w"
  using assms
  by (auto simp: residual_function_resolved resolved_rhs_filled
      split: sum.splits option.splits if_splits)

lemma evaluate_residual_funcs_loop_keeps_resolution:
  assumes "evaluate_residual_funcs_loop vars (construct_residual_funcs lambdify bd bf) nodes
             cache self = Inr (rs, cache')"
  shows "resolved_rhs lambdify cache' self w = resolved_rhs lambdify cache self w"
  using assms
proof (induction vars arbitrary: cache rs)
  case Nil
  then show ?case by simp
next
  case (Cons v vars)
  from Cons.prems obtain rf points r c1 rs' where
    get: "dict_get (construct_residual_funcs lambdify bd bf) v = Inr rf"
    and call: "rf cache self points = Inr (r, c1)"
    and rest: "evaluate_residual_funcs_loop vars (construct_residual_funcs lambdify bd bf) nodes
                 c1 self = Inr (rs', cache')"
    by (auto split: sum.splits)
  from get have "rf = residual_function_factory lambdify v bd bf"
    by (auto simp: dict_get_def map_of_construct_residual_funcs split: if_splits)
  with call have "resolved_rhs lambdify c1 self w = resolved_rhs lambdify cache self w"
    by (simp add: residual_function_keeps_resolution)
  with Cons.IH [OF rest] show ?case by simp
qed

lemma collocation_residuals_keeps_resolution:
  fixes self :: "('e, 'a::minus) Solver"
  assumes "collocation_residuals lambdify bdf bff cache self nodes kind domain degrees coefs
             = Inr (residuals, cache', self')"
  shows "model_attr self' = model_attr self \<and> params_attr self' = params_attr self
       \<and> resolved_lower lambdify self' = resolved_lower lambdify self
       \<and> resolved_upper lambdify self' = resolved_upper lambdify self
       \<and> resolved_rhs lambdify cache' self' w = resolved_rhs lambdify cache self w"
proof -
  from assms obtain derivs funcs interior boundary where
    loop: "evaluate_residual_funcs_loop (dependent_vars (model_attr self))
             (construct_residual_funcs lambdify derivs funcs) nodes cache self
           = Inr (interior, cache')"
    and bnd: "evaluate_boundary_residuals lambdify self funcs domain = Inr (boundary, self')"
    by (auto simp: collocation_residuals_def evaluate_residual_funcs_def split: sum.splits)
  note k = evaluate_boundary_residuals_keeps_resolution [OF bnd]
  have "resolved_rhs lambdify cache' self w = resolved_rhs lambdify cache self w"
    by (rule evaluate_residual_funcs_loop_keeps_resolution [OF loop])
  moreover have "resolved_rhs lambdify cache' self' w = resolved_rhs lambdify cache' self w"
    using k by (intro resolved_rhs_cong) simp_all
  ultimately show ?thesis using k by simp
qed

text \<open>
  C9. Two invocations of \<open>solve\<close> with the same model, parameters, initial coefficients,
  nodes, basis and degrees, and the same deterministic external solver, store the same
  result, provided that in both states every dependent variable and each boundary side
  resolves to the same compiled callable. The external solver runs once and its result is
  stored as it is, failed or not. The condition holds in particular for a solve that
  follows residual evaluations of the same solver, as those of an earlier solve: the third
  part. Without the condition the claim fails, see the counterexample below.
\<close>

theorem solve_deterministic:
  fixes self1 self2 :: "('e, 'a::minus) Solver"
  assumes "model_attr self2 = model_attr self1" and "params_attr self2 = params_attr self1"
    and "resolved_lower lambdify self2 = resolved_lower lambdify self1"
    and "resolved_upper lambdify self2 = resolved_upper lambdify self1"
    and "\<forall>v \<in> set (dependent_vars (model_attr self1)).
           resolved_rhs lambdify cache2 self2 v = resolved_rhs lambdify cache1 self1 v"
  shows "result (solve external_solver lambdify bdf bff cache2 self2 x0 nodes kind domain degrees)
       = result (solve external_solver lambdify bdf bff cache1 self1 x0 nodes kind domain degrees)
     \<and> result (solve external_solver lambdify bdf bff cache1 self1 x0 nodes kind domain degrees)
       = Inr (external_solver
               (\<lambda>coefs_array. map_sum id fst
                  (collocation_residuals lambdify bdf bff cache1 self1 nodes kind domain degrees
                     coefs_array))
               x0)
     \<and> (\<forall>coefs residuals cache' self'.
           collocation_residuals lambdify bdf bff cache1 self1 nodes kind domain degrees coefs
             = Inr (residuals, cache', self') \<longrightarrow>
           result (solve external_solver lambdify bdf bff cache' self' x0 nodes kind domain
                     degrees)
             = result (solve external_solver lambdify bdf bff cache1 self1 x0 nodes kind domain
                         degrees))"
proof -
  have rv: "(case x of Inl e \<Rightarrow> Inl e | Inr (residuals, cache', self') \<Rightarrow> Inr residuals)
      = map_sum id fst x" for x :: "error + ('a list \<times> 'a rhs_cache \<times> ('e, 'a) Solver)"
    by (cases x) auto
  have same: "result (solve external_solver lambdify bdf bff c s x0 nodes kind domain degrees)
       = result (solve external_solver lambdify bdf bff cache1 self1 x0 nodes kind domain degrees)"
    if m: "model_attr s = model_attr self1" and p: "params_attr s = params_attr self1"
      and l: "resolved_lower lambdify s = resolved_lower lambdify self1"
      and u: "resolved_upper lambdify s = resolved_upper lambdify self1"
      and r: "\<forall>v \<in> set (dependent_vars (model_attr self1)).
                resolved_rhs lambdify c s v = resolved_rhs lambdify cache1 self1 v"
    for c and s :: "('e, 'a) Solver"
  proof -
    have ag: "resolve_alike lambdify (set (dependent_vars (model_attr self1))) self1 cache1 c"
      using r by (simp add: resolve_alike_def resolved_rhs_cong [OF m p])
    have "(\<lambda>coefs. map_sum id fst
             (collocation_residuals lambdify bdf bff cache1 self1 nodes kind domain degrees coefs))
        = (\<lambda>coefs. map_sum id fst
             (collocation_residuals lambdify bdf bff c s nodes kind domain degrees coefs))"
      using collocation_residuals_frame [OF m p l u ag] by (intro ext)
    then show ?thesis by (simp add: solve_def result_def rv Let_def)
  qed
  have first: "result (solve external_solver lambdify bdf bff cache2 self2 x0 nodes kind domain
        degrees)
      = result (solve external_solver lambdify bdf bff cache1 self1 x0 nodes kind domain degrees)"
    by (rule same [OF assms])
  have stored: "result (solve external_solver lambdify bdf bff cache1 self1 x0 nodes kind domain
        degrees)
      = Inr (external_solver
               (\<lambda>coefs_array. map_sum id fst
                  (collocation_residuals lambdify bdf bff cache1 self1 nodes kind domain degrees
                     coefs_array))
               x0)"
    by (simp add: solve_def result_def rv Let_def)
  have again: "result (solve external_solver lambdify bdf bff cache' self' x0 nodes kind domain
        degrees)
      = result (solve external_solver lambdify bdf bff cache1 self1 x0 nodes kind domain degrees)"
    if "collocation_residuals lambdify bdf bff cache1 self1 nodes kind domain degrees coefs
          = Inr (residuals, cache', self')" for coefs residuals cache' self'
    using collocation_residuals_keeps_resolution [OF that] by (intro same) simp_all
  from first stored again show ?thesis by blast
qed

theorem solve_deterministic_witness:
  "model_attr solver_decay_again = model_attr solver_decay
   \<and> params_attr solver_decay_again = params_attr solver_decay
   \<and> resolved_lower lambdify_expr solver_decay_again = resolved_lower lambdify_expr solver_decay
   \<and> resolved_upper lambdify_expr solver_decay_again = resolved_upper lambdify_expr solver_decay
   \<and> list_all (\<lambda>v. resolved_rhs lambdify_expr filled_cache solver_decay_again v
                    = resolved_rhs lambdify_expr [] solver_decay v)
       (dependent_vars (model_attr solver_decay))
   \<and> result (solve one_step_solver lambdify_expr monomial_derivative_factory
         monomial_function_factory filled_cache solver_decay_again
         [3] [(''x'', 1)] () (0, 1) [(''x'', 0)])
     = result (solve one_step_solver lambdify_expr monomial_derivative_factory
         monomial_function_factory [] solver_decay [3] [(''x'', 1)] () (0, 1) [(''x'', 0)])"
proof -
  have decay: "dependent_vars (model_attr solver_decay) = [''x'']"
      "rhs (model_attr solver_decay) = [(''x'', Minus (Num 0) (Sym ''x''))]"
      "lower (boundary_conditions (model_attr solver_decay)) = None"
      "upper (boundary_conditions (model_attr solver_decay)) = Some (Sym ''x'')"
      "upper_boundary_condition_cache solver_decay = None"
    by (simp_all add: solver_decay_def solver_of_def model_decay_def)
  have again: "upper_boundary_condition_cache solver_decay_again
        = Some (lambdify_expr [''t'', ''x'', ''a''] (Sym ''x''))"
    by (simp add: solver_decay_again_def)
  have m: "model_attr solver_decay_again = model_attr solver_decay"
    and p: "params_attr solver_decay_again = params_attr solver_decay"
    by (simp_all add: solver_decay_again_def)
  have l: "resolved_lower lambdify_expr solver_decay_again
      = resolved_lower lambdify_expr solver_decay"
    by (simp add: resolved_lower_def m decay)
  have u: "resolved_upper lambdify_expr solver_decay_again
      = resolved_upper lambdify_expr solver_decay"
    by (simp add: resolved_upper_def m decay again symbolic_args_examples)
  have r: "resolved_rhs lambdify_expr filled_cache solver_decay_again ''x''
      = resolved_rhs lambdify_expr [] solver_decay ''x''"
    by (simp add: resolved_rhs_def filled_cache_def decay symbolic_args_examples)
  have c: "\<forall>v \<in> set (dependent_vars (model_attr solver_decay)).
      resolved_rhs lambdify_expr filled_cache solver_decay_again v
        = resolved_rhs lambdify_expr [] solver_decay v"
    by (simp add: decay r)
  have c': "list_all (\<lambda>v. resolved_rhs lambdify_expr filled_cache solver_decay_again v
                    = resolved_rhs lambdify_expr [] solver_decay v)
       (dependent_vars (model_attr solver_decay))"
    by (simp add: decay r)
  note d = solve_deterministic [where external_solver = one_step_solver
        and bdf = monomial_derivative_factory and bff = monomial_function_factory
        and ?x0.0 = "[3]" and nodes = "[(''x'', 1)]" and kind = "()" and domain = "(0, 1)"
        and degrees = "[(''x'', 0)]", OF m p l u c, THEN conjunct1]
  from m p l u c' d show ?thesis by blast
qed

text \<open>
  The results differ when the class's cache holds a callable compiled from another model
  under the same variable name: \<open>stale_cache\<close> is what a solver of \<open>model_growth\<close> leaves
  behind. The same model, parameters and initial coefficients then give the coefficients
  \<open>[0]\<close> from an empty cache and \<open>[9]\<close> from the stale one.
\<close>

theorem solve_stale_cache_counterexample:
  "map_sum id snd (rhs_functions lambdify_expr [] solver_growth ''x'') = Inr stale_cache
   \<and> result (solve one_step_solver lambdify_expr monomial_derivative_factory
         monomial_function_factory [] solver_decay [3] [(''x'', 1)] () (0, 1) [(''x'', 0)])
       = Inr \<lparr>result_x = [0], success = False\<rparr>
   \<and> result (solve one_step_solver lambdify_expr monomial_derivative_factory
         monomial_function_factory stale_cache solver_decay [3] [(''x'', 1)] () (0, 1)
         [(''x'', 0)])
       = Inr \<lparr>result_x = [9], success = False\<rparr>"
proof (intro conjI)
  have growth: "rhs (model_attr solver_growth) = [(''x'', Times (Sym ''a'') (Sym ''x''))]"
    by (simp add: solver_growth_def solver_of_def model_growth_def)
  show "map_sum id snd (rhs_functions lambdify_expr [] solver_growth ''x'') = Inr stale_cache"
    by (simp add: rhs_functions_def dict_get_def lambdify_factory_def symbolic_args_examples
        stale_cache_def growth)
  have coefs: "coefs_array_to_dict [3::int] [(''x'', 0)] = Inr [(''x'', [3])]"
    by (simp add: coefs_array_to_dict_def slice_to_def slice_from_def slice_index_def)
  have derivs: "construct_basis_derivs monomial_derivative_factory [(''x'', [3])] () (0, 1)
      = Inr [(''x'', poly_deriv [3])]"
    by (simp add: construct_basis_derivs_def monomial_derivative_factory_def)
  have funcs: "construct_basis_funcs monomial_function_factory [(''x'', [3])] () (0, 1)
      = Inr [(''x'', poly_eval [3])]"
    by (simp add: construct_basis_funcs_def monomial_function_factory_def)
  have decay: "dependent_vars (model_attr solver_decay) = [''x'']"
      "params_attr solver_decay = [(''a'', 2)]"
      "rhs (model_attr solver_decay) = [(''x'', Minus (Num 0) (Sym ''x''))]"
      "lower (boundary_conditions (model_attr solver_decay)) = None"
      "upper (boundary_conditions (model_attr solver_decay)) = Some (Sym ''x'')"
      "lower_boundary_condition_cache solver_decay = None"
      "upper_boundary_condition_cache solver_decay = None"
    by (simp_all add: solver_decay_def solver_of_def model_decay_def)
  have bf: "list_all2 (\<lambda>v b. map_of [(''x'', poly_eval [3])] v = Some b)
      (dependent_vars (model_attr solver_decay)) [poly_eval [3]]"
    by (simp add: decay)
  have boundary: "map_sum id fst (evaluate_boundary_residuals lambdify_expr solver_decay
      [(''x'', poly_eval [3])] (0, 1)) = Inr [3]"
    by (simp add: evaluate_boundary_residuals_def evaluate_lower_boundary_residual_ok [OF bf]
        evaluate_upper_boundary_residual_ok [OF bf] decay symbolic_args_examples
        lambdify_expr_def)
  have rf: "dict_get (construct_residual_funcs lambdify_expr [(''x'', poly_deriv [3])]
        [(''x'', poly_eval [3])]) ''x''
      = Inr (residual_function_factory lambdify_expr ''x'' [(''x'', poly_deriv [3])]
          [(''x'', poly_eval [3])])"
    by (simp add: dict_get_def map_of_construct_residual_funcs)
  have fresh: "map_sum id fst (residual_function_factory lambdify_expr ''x''
      [(''x'', poly_deriv [3])] [(''x'', poly_eval [3])] [] solver_decay 1) = Inr 3"
    by (simp add: residual_function_factory_def evaluate_basis_funcs_ok [OF bf] dict_get_def
        rhs_functions_def lambdify_factory_def decay symbolic_args_examples lambdify_expr_def)
  have stale: "map_sum id fst (residual_function_factory lambdify_expr ''x''
      [(''x'', poly_deriv [3])] [(''x'', poly_eval [3])] stale_cache solver_decay 1) = Inr (- 6)"
    by (simp add: residual_function_factory_def evaluate_basis_funcs_ok [OF bf] dict_get_def
        rhs_functions_def stale_cache_def decay lambdify_expr_def)
  have nd: "dict_get [(''x'', 1::int)] ''x'' = Inr 1"
    by (simp add: dict_get_def)
  have interior_fresh: "map_sum id fst (evaluate_residual_funcs solver_decay
      (construct_residual_funcs lambdify_expr [(''x'', poly_deriv [3])] [(''x'', poly_eval [3])])
      [(''x'', 1)] []) = Inr [3]"
    using fresh
    by (auto simp: evaluate_residual_funcs_def decay rf nd split: sum.splits)
  have interior_stale: "map_sum id fst (evaluate_residual_funcs solver_decay
      (construct_residual_funcs lambdify_expr [(''x'', poly_deriv [3])] [(''x'', poly_eval [3])])
      [(''x'', 1)] stale_cache) = Inr [- 6]"
    using stale
    by (auto simp: evaluate_residual_funcs_def decay rf nd split: sum.splits)
  have v_fresh: "map_sum id fst (collocation_residuals lambdify_expr monomial_derivative_factory
      monomial_function_factory [] solver_decay [(''x'', 1)] () (0, 1) [(''x'', 0)] [3])
      = Inr [3, 3]"
    using interior_fresh boundary
    by (auto simp: collocation_residuals_def coefs derivs funcs split: sum.splits)
  have v_stale: "map_sum id fst (collocation_residuals lambdify_expr monomial_derivative_factory
      monomial_function_factory stale_cache solver_decay [(''x'', 1)] () (0, 1) [(''x'', 0)] [3])
      = Inr [- 6, 3]"
    using interior_stale boundary
    by (auto simp: collocation_residuals_def coefs derivs funcs split: sum.splits)
  have rv: "(case x of Inl e \<Rightarrow> Inl e | Inr (residuals, cache', self') \<Rightarrow> Inr residuals)
      = map_sum id fst x" for x :: "error + (int list \<times> int rhs_cache \<times> (expr, int) Solver)"
    by (cases x) auto
  show "result (solve one_step_solver lambdify_expr monomial_derivative_factory
         monomial_function_factory [] solver_decay [3] [(''x'', 1)] () (0, 1) [(''x'', 0)])
       = Inr \<lparr>result_x = [0], success = False\<rparr>"
    by (simp add: solve_def result_def rv v_fresh one_step_solver_def Let_def)
  show "result (solve one_step_solver lambdify_expr monomial_derivative_factory
         monomial_function_factory stale_cache solver_decay [3] [(''x'', 1)] () (0, 1)
         [(''x'', 0)])
       = Inr \<lparr>result_x = [9], success = False\<rparr>"
    by (simp add: solve_def result_def rv v_stale one_step_solver_def Let_def)
qed

end
